theory Spec2Isabelle
  imports Main "HOL-Library.Signed_Division" "HOL-Library.Code_Target_Nat"
begin

unbundle bit_operations_syntax

section \<open>Machine integers\<close>

text \<open>
  The program is C on an LP64 platform: \<open>long long\<close>, \<open>long\<close>, \<open>off_t\<close>, \<open>time_t\<close>,
  \<open>ssize_t\<close> are 64-bit two's complement, \<open>int\<close> is 32-bit. Values are kept as
  \<open>int\<close> and every arithmetic result that the code stores in such a variable is
  passed through the wrap-around of its width. C's \<open>/\<close> and \<open>%\<close> truncate towards
  zero: they are \<open>sdiv\<close> and \<open>smod\<close>.
\<close>

definition s64 :: "int \<Rightarrow> int" where
  "s64 x = (x + 2 ^ 63) mod 2 ^ 64 - 2 ^ 63"

definition s32 :: "int \<Rightarrow> int" where
  "s32 x = (x + 2 ^ 31) mod 2 ^ 32 - 2 ^ 31"

definition in_s64 :: "int \<Rightarrow> bool" where
  "in_s64 x = (- (2 ^ 63) \<le> x \<and> x < 2 ^ 63)"

section \<open>Elapsed time (elapsedtime.c)\<close>

text \<open>\<open>struct timespec\<close>; a pointer that may be NULL is an \<open>option\<close>.\<close>

record timespec =
  tv_sec :: int
  tv_nsec :: int

definition pv_elapsedtime_zero :: "timespec option \<Rightarrow> timespec option" where
  "pv_elapsedtime_zero zero_time =
     (case zero_time of None \<Rightarrow> None
      | Some z \<Rightarrow> Some (z\<lparr>tv_sec := 0, tv_nsec := 0\<rparr>))"

definition pv_elapsedtime_compare :: "timespec option \<Rightarrow> timespec option \<Rightarrow> int" where
  "pv_elapsedtime_compare first_time second_time =
     (case (first_time, second_time) of
        (None, None) \<Rightarrow> 0
      | (None, Some s) \<Rightarrow> - 1
      | (Some f, None) \<Rightarrow> 1
      | (Some f, Some s) \<Rightarrow>
          if tv_sec f < tv_sec s then - 1
          else if tv_sec f > tv_sec s then 1
          else if tv_nsec f < tv_nsec s then - 1
          else if tv_nsec f > tv_nsec s then 1
          else 0)"

text \<open>
  \<open>pv_elapsedtime_add\<close> and \<open>pv_elapsedtime_subtract\<close> work in two \<open>long long\<close>
  accumulators and store them into \<open>*return_time\<close>. The first argument of the model is
  the pointer \<open>return_time\<close> (its old content is overwritten), the result is the new
  content.
\<close>

definition pv_elapsedtime_add ::
  "timespec option \<Rightarrow> timespec option \<Rightarrow> timespec option \<Rightarrow> timespec option" where
  "pv_elapsedtime_add return_time first_time second_time =
     (case return_time of None \<Rightarrow> None
      | Some r \<Rightarrow>
         (let seconds0 = 0; nanoseconds0 = 0;
              seconds1 = (case first_time of None \<Rightarrow> seconds0
                          | Some f \<Rightarrow> s64 (seconds0 + tv_sec f));
              nanoseconds1 = (case first_time of None \<Rightarrow> nanoseconds0
                          | Some f \<Rightarrow> s64 (nanoseconds0 + tv_nsec f));
              seconds2 = (case second_time of None \<Rightarrow> seconds1
                          | Some s \<Rightarrow> s64 (seconds1 + tv_sec s));
              nanoseconds2 = (case second_time of None \<Rightarrow> nanoseconds1
                          | Some s \<Rightarrow> s64 (nanoseconds1 + tv_nsec s));
              seconds3 = s64 (seconds2 + nanoseconds2 sdiv 1000000000);
              nanoseconds3 = nanoseconds2 smod 1000000000
          in Some (r\<lparr>tv_sec := seconds3, tv_nsec := nanoseconds3\<rparr>)))"

definition pv_elapsedtime_subtract ::
  "timespec option \<Rightarrow> timespec option \<Rightarrow> timespec option \<Rightarrow> timespec option" where
  "pv_elapsedtime_subtract return_time first_time second_time =
     (case return_time of None \<Rightarrow> None
      | Some r \<Rightarrow>
         (let seconds0 = 0; nanoseconds0 = 0;
              seconds1 = (case first_time of None \<Rightarrow> seconds0
                          | Some f \<Rightarrow> s64 (seconds0 + tv_sec f));
              nanoseconds1 = (case first_time of None \<Rightarrow> nanoseconds0
                          | Some f \<Rightarrow> s64 (nanoseconds0 + tv_nsec f));
              seconds2 = (case second_time of None \<Rightarrow> seconds1
                          | Some s \<Rightarrow> s64 (seconds1 - tv_sec s));
              nanoseconds2 = (case second_time of None \<Rightarrow> nanoseconds1
                          | Some s \<Rightarrow> s64 (nanoseconds1 - tv_nsec s));
              seconds3 = s64 (seconds2 + nanoseconds2 sdiv 1000000000);
              nanoseconds3 = nanoseconds2 smod 1000000000;
              seconds4 = (if nanoseconds3 < 0 then s64 (seconds3 - 1) else seconds3);
              nanoseconds4 = (if nanoseconds3 < 0 then s64 (1000000000 + nanoseconds3)
                              else nanoseconds3)
          in Some (r\<lparr>tv_sec := seconds4, tv_nsec := nanoseconds4\<rparr>)))"

text \<open>
  A timespec is normalised when its nanoseconds are in \<open>[0, 10^9)\<close>; the clock only
  produces such values. \<open>ts_nanos\<close> is the instant as one number of nanoseconds, and
  \<open>ts_small\<close> bounds both fields so that no intermediate result leaves 64 bits.
\<close>

definition ts_normal :: "timespec \<Rightarrow> bool" where
  "ts_normal t = (0 \<le> tv_nsec t \<and> tv_nsec t < 1000000000)"

definition ts_small :: "timespec \<Rightarrow> bool" where
  "ts_small t = (- (2 ^ 59) \<le> tv_sec t \<and> tv_sec t < 2 ^ 59 \<and>
                 - (2 ^ 59) \<le> tv_nsec t \<and> tv_nsec t < 2 ^ 59)"

definition ts_nanos :: "timespec \<Rightarrow> int" where
  "ts_nanos t = tv_sec t * 1000000000 + tv_nsec t"

definition ts_zero :: timespec where
  "ts_zero = \<lparr>tv_sec = 0, tv_nsec = 0\<rparr>"

section \<open>Number parsing (number.c)\<close>

text \<open>
  A \<open>const char *\<close> argument is \<open>None\<close> for NULL and otherwise the characters before
  the terminating NUL; reading \<open>str[0]\<close> at the end of the string gives NUL.
\<close>

definition NUL :: char where
  "NUL = CHR 0x00"

fun c_hd :: "string \<Rightarrow> char" where
  "c_hd [] = NUL"
| "c_hd (c # cs) = c"

definition pv__isdigit :: "char \<Rightarrow> bool" where
  "pv__isdigit c = ((of_char c :: nat) \<ge> of_char CHR ''0'' \<and> (of_char c :: nat) \<le> of_char CHR ''9'')"

definition digit_value :: "char \<Rightarrow> int" where
  "digit_value c = int (of_char c) - int (of_char CHR ''0'')"












definition is_decimal_mark :: "char \<Rightarrow> bool" where
  "is_decimal_mark c = (c = CHR ''.'' \<or> c = CHR '','')"






section \<open>String utilities (string.c)\<close>

text \<open>
  A writable buffer is the list of its bytes; the string it holds is the bytes before
  the first NUL. \<open>strlen\<close> counts them.
\<close>

definition c_str :: "char list \<Rightarrow> string" where
  "c_str buf = takeWhile (\<lambda>c. c \<noteq> NUL) buf"

definition c_strlen :: "char list \<Rightarrow> nat" where
  "c_strlen buf = length (c_str buf)"

text \<open>Storing a run of bytes at an offset of a buffer, as \<open>memcpy\<close> to \<open>buf + off\<close> does.\<close>

definition write_at :: "char list \<Rightarrow> nat \<Rightarrow> char list \<Rightarrow> char list" where
  "write_at buf off bytes = take off buf @ bytes @ drop (off + length bytes) buf"

text \<open>
  \<open>pv_snprintf (str, size, format, ...)\<close> for a buffer \<open>str = buf + off\<close> and \<open>size = sz\<close>. The expansion of
  the format is the argument \<open>text\<close>; \<open>vsnprintf\<close> stores at most \<open>sz - 1\<close> of its
  characters and a NUL, and returns the length of the whole expansion. The result is
  the return value and the buffer. (NULL arguments do not occur at the call sites
  modelled here.)
\<close>

definition pv_snprintf :: "char list \<Rightarrow> nat \<Rightarrow> nat \<Rightarrow> string \<Rightarrow> int \<times> char list" where
  "pv_snprintf buf off sz text =
     (if sz = 0 then (- 1, buf)
      else (let buf1 = buf[off := NUL];
                buf2 = write_at buf1 off (take (sz - 1) text @ [NUL]);
                buf3 = buf2[off + sz - 1 := NUL]
            in (int (length text), buf3)))"

text \<open>
  The precision of a \<open>%.*s\<close> conversion is an argument of type \<open>int\<close>. \<open>pv_strlcat\<close>
  passes the \<open>size_t\<close> value \<open>available - 1\<close> in that place; on LP64 the callee reads
  the low 32 bits of it as an \<open>int\<close>. A negative precision is taken as if the precision
  were omitted, and the conversion expands to the whole string.
\<close>

definition precision_arg :: "nat \<Rightarrow> int" where
  "precision_arg n = s32 (int n)"

definition expand_precision_s :: "int \<Rightarrow> string \<Rightarrow> string" where
  "expand_precision_s precision s = (if precision < 0 then s else take (nat precision) s)"

text \<open>
  \<open>pv_strlcat\<close>, the implementation of the file itself (the branch without
  \<open>HAVE_STRLCAT\<close>). The format is \<open>%.*s\<close> with the precision argument \<open>available - 1\<close>
  and the string \<open>src\<close>. The result is the return value and the destination buffer.
  The lengths are \<open>size_t\<close>; two strings in memory cannot make their sum wrap.
\<close>

definition pv_strlcat :: "char list option \<Rightarrow> char list option \<Rightarrow> nat \<Rightarrow> nat \<times> char list option" where
  "pv_strlcat dst src dstsize =
     (case dst of None \<Rightarrow> (0, None)
      | Some d \<Rightarrow>
         (case src of None \<Rightarrow> (0, Some d)
          | Some s \<Rightarrow>
             if dstsize = 0 then (0, Some d)
             else (let d1 = d[dstsize - 1 := NUL];
                       dstlen = c_strlen d1;
                       srclen = c_strlen s;
                       available = dstsize - dstlen;
                       d2 = (if available > 1
                             then snd (pv_snprintf d1 dstlen available
                                         (expand_precision_s (precision_arg (available - 1))
                                            (c_str s)))
                             else d1)
                   in (dstlen + srclen, Some d2))))"

section \<open>The operating system seen by the transfer engine\<close>

text \<open>
  The transfer engine talks to the kernel through \<open>select\<close>, \<open>read\<close>, \<open>write\<close>,
  \<open>splice\<close>, \<open>lseek\<close>, \<open>fdatasync\<close>, the allocator and the clock. The \<open>world\<close> holds
  what these calls act on -- the current input (its whole content and the file offset),
  the bytes taken from the inputs that were open before it (\<open>in_done\<close>), the bytes that
  have reached standard output, the result of every \<open>write\<close> so far (\<open>write_log\<close>), the
  messages given to \<open>pv_error\<close> -- and, for every kind of call, the list of results that the coming calls will get.
  Each call takes the head of its list; when the list is empty the call succeeds in
  full (\<open>select\<close> times out, the timers have not expired).
\<close>

datatype errno = EINTR | EAGAIN | EINVAL | EPIPE | EIO | ENOSPC | ESPIPE | EFAULT

datatype io_result = Done nat | Failed errno

datatype select_result = Selected bool bool | SelectFailed errno

record world =
  in_file :: "char list"
  in_offset :: nat
  in_seekable :: bool
  in_done :: "char list"
  out_data :: "char list"
  write_log :: "io_result list"
  error_log :: "string list"
  reads :: "io_result list"
  writes :: "io_result list"
  splices :: "io_result list"
  selects :: "select_result list"
  polls :: "bool list"
  timers :: "bool list"
  syncs :: "bool list"
  allocs :: "bool list"
  seeks :: "errno option list"

definition in_remaining :: "world \<Rightarrow> char list" where
  "in_remaining w = drop (in_offset w) (in_file w)"

text \<open>
  \<open>read (fd, buf, count)\<close>. The result \<open>Done n\<close> in the list stands for a read that finds
  \<open>n + 1\<close> bytes available: as a blocking read does, the call returns at least one byte
  unless \<open>count\<close> is 0 or the input is at its end, and then it returns 0.
\<close>

definition sys_read :: "world \<Rightarrow> nat \<Rightarrow> io_result \<times> char list \<times> world" where
  "sys_read w count =
     (let w1 = w\<lparr>reads := tl (reads w)\<rparr>
      in case (case reads w of [] \<Rightarrow> Done count | r # rs \<Rightarrow> r) of
           Failed e \<Rightarrow> (Failed e, [], w1)
         | Done n \<Rightarrow>
             (let k = min count (min (length (in_remaining w)) (Suc n))
              in (Done k, take k (in_remaining w), w1\<lparr>in_offset := in_offset w + k\<rparr>)))"

text \<open>\<open>write (STDOUT_FILENO, buf, count)\<close>: \<open>Done n\<close> accepts at most \<open>n\<close> bytes.\<close>

definition sys_write :: "world \<Rightarrow> char list \<Rightarrow> io_result \<times> world" where
  "sys_write w bytes =
     (let w1 = w\<lparr>writes := tl (writes w)\<rparr>
      in case (case writes w of [] \<Rightarrow> Done (length bytes) | r # rs \<Rightarrow> r) of
           Failed e \<Rightarrow> (Failed e, w1\<lparr>write_log := write_log w @ [Failed e]\<rparr>)
         | Done n \<Rightarrow>
             (let k = min n (length bytes)
              in (Done k, w1\<lparr>out_data := out_data w @ take k bytes,
                               write_log := write_log w @ [Done k]\<rparr>)))"

text \<open>
  \<open>splice (fd, NULL, STDOUT_FILENO, NULL, len, SPLICE_F_MORE)\<close> moves bytes from the
  input to standard output inside the kernel.
\<close>

definition sys_splice :: "world \<Rightarrow> nat \<Rightarrow> io_result \<times> world" where
  "sys_splice w len =
     (let w1 = w\<lparr>splices := tl (splices w)\<rparr>
      in case (case splices w of [] \<Rightarrow> Done len | r # rs \<Rightarrow> r) of
           Failed e \<Rightarrow> (Failed e, w1)
         | Done n \<Rightarrow>
             (let k = min len (min (length (in_remaining w)) (Suc n))
              in (Done k, w1\<lparr>in_offset := in_offset w + k,
                               out_data := out_data w @ take k (in_remaining w)\<rparr>)))"

text \<open>
  \<open>is_data_ready (fd_in, &fd_in_ready, fd_out, &fd_out_ready, usec)\<close>: the \<open>select\<close>
  call. The arguments say whether \<open>fd_in\<close> and \<open>fd_out\<close> are non-negative. The result
  is the return value, the two flags and the error number of a failure.
\<close>

definition is_data_ready :: "world \<Rightarrow> bool \<Rightarrow> bool \<Rightarrow> int \<times> bool \<times> bool \<times> errno option \<times> world" where
  "is_data_ready w check_in check_out =
     (let w1 = w\<lparr>selects := tl (selects w)\<rparr>
      in case (case selects w of [] \<Rightarrow> Selected False False | r # rs \<Rightarrow> r) of
           SelectFailed e \<Rightarrow> (- 1, False, False, Some e, w1)
         | Selected r_in r_out \<Rightarrow>
             (let fd_in_ready = (check_in \<and> r_in); fd_out_ready = (check_out \<and> r_out)
              in (of_bool fd_in_ready + of_bool fd_out_ready, fd_in_ready, fd_out_ready, None, w1)))"

text \<open>
  \<open>is_data_ready (fd, NULL, -1, NULL, 0) < 1\<close> inside the read loop, and the test
  \<open>elapsed_seconds > TRANSFER_READ_TIMEOUT\<close> (or \<open>TRANSFER_WRITE_TIMEOUT\<close>) on the clock.
\<close>

definition sys_poll :: "world \<Rightarrow> bool \<times> world" where
  "sys_poll w = ((case polls w of [] \<Rightarrow> True | r # rs \<Rightarrow> r), w\<lparr>polls := tl (polls w)\<rparr>)"

definition timer_expired :: "world \<Rightarrow> bool \<times> world" where
  "timer_expired w = ((case timers w of [] \<Rightarrow> False | r # rs \<Rightarrow> r), w\<lparr>timers := tl (timers w)\<rparr>)"

text \<open>\<open>fdatasync (fd) < 0 && EIO == errno\<close>: \<open>True\<close> in the list is this failure.\<close>

definition fdatasync_eio :: "world \<Rightarrow> bool \<times> world" where
  "fdatasync_eio w = ((case syncs w of [] \<Rightarrow> False | r # rs \<Rightarrow> r), w\<lparr>syncs := tl (syncs w)\<rparr>)"

text \<open>The allocator: \<open>False\<close> in the list is a NULL result.\<close>

definition sys_alloc :: "world \<Rightarrow> bool \<times> world" where
  "sys_alloc w = ((case allocs w of [] \<Rightarrow> True | r # rs \<Rightarrow> r), w\<lparr>allocs := tl (allocs w)\<rparr>)"

text \<open>\<open>lseek (fd, 0, SEEK_CUR)\<close> and \<open>lseek (fd, offset, SEEK_SET)\<close>.\<close>

definition lseek_cur :: "world \<Rightarrow> int" where
  "lseek_cur w = (if in_seekable w then int (in_offset w) else - 1)"

definition lseek_set :: "world \<Rightarrow> int \<Rightarrow> int \<times> errno option \<times> world" where
  "lseek_set w offset =
     (let w1 = w\<lparr>seeks := tl (seeks w)\<rparr>
      in if \<not> in_seekable w then (- 1, Some ESPIPE, w1)
         else if offset < 0 then (- 1, Some EINVAL, w1)
         else (case (case seeks w of [] \<Rightarrow> None | r # rs \<Rightarrow> r) of
                 Some e \<Rightarrow> (- 1, Some e, w1)
               | None \<Rightarrow> (offset, None, w1\<lparr>in_offset := nat offset\<rparr>)))"

definition pv_error :: "world \<Rightarrow> string \<Rightarrow> world" where
  "pv_error w msg = w\<lparr>error_log := error_log w @ [msg]\<rparr>"

section \<open>The transfer engine (transfer.c)\<close>

text \<open>
  The fields of \<open>struct pvstate_s\<close> that the transfer engine and the main loop use, under
  their names in the source (\<open>control.size\<close> is \<open>size_total\<close>, and
  \<open>display.component[PV_COMPONENT_OUTPUTBUF].required\<close> is \<open>outputbuf_required\<close>).
  Sizes and positions are \<open>size_t\<close>, here \<open>nat\<close>; \<open>off_t\<close> and \<open>ssize_t\<close> are \<open>int\<close>.
  The exit status is a bit mask: \<open>exit_status |= 16\<close> is \<open>exit_status OR 16\<close>.
\<close>

record pvstate =
  linemode :: bool
  null_terminated_lines :: bool
  skip_errors :: nat
  error_skip_block :: int
  stop_at_size :: bool
  sync_after_write :: bool
  direct_io_changed :: bool
  no_splice :: bool
  discard_input :: bool
  rate_limit :: int
  target_buffer_size :: nat
  size_total :: int
  exit_status :: nat
  transfer_buffer :: "char list option"
  buffer_size :: nat
  read_position :: nat
  write_position :: nat
  last_read_skip_fd :: int
  read_errors_in_a_row :: int
  read_error_warning_shown :: bool
  splice_failed_fd :: int
  splice_used :: bool
  to_write :: int
  written :: int
  outputbuf_required :: bool
  lastoutput_length :: nat
  lastoutput_buffer :: "char list"

text \<open>\<open>pv_state_alloc\<close>: \<open>calloc\<close> clears the structure, then \<open>splice_failed_fd = -1\<close>.\<close>

definition pv_state_alloc :: pvstate where
  "pv_state_alloc =
     \<lparr>linemode = False, null_terminated_lines = False, skip_errors = 0, error_skip_block = 0,
      stop_at_size = False, sync_after_write = False, direct_io_changed = False,
      no_splice = False, discard_input = False, rate_limit = 0, target_buffer_size = 0,
      size_total = 0, exit_status = 0, transfer_buffer = None, buffer_size = 0,
      read_position = 0, write_position = 0, last_read_skip_fd = 0, read_errors_in_a_row = 0,
      read_error_warning_shown = False, splice_failed_fd = - 1, splice_used = False,
      to_write = 0, written = 0, outputbuf_required = False, lastoutput_length = 0,
      lastoutput_buffer = replicate 256 NUL\<rparr>"

text \<open>A world in which nothing has happened yet and every call will succeed in full.\<close>

definition quiet_world :: "char list \<Rightarrow> world" where
  "quiet_world content =
     \<lparr>in_file = content, in_offset = 0, in_seekable = True, in_done = [], out_data = [],
      write_log = [], error_log = [],
      reads = [], writes = [], splices = [], selects = [], polls = [], timers = [],
      syncs = [], allocs = [], seeks = []\<rparr>"

definition MAX_READ_AT_ONCE :: nat where
  "MAX_READ_AT_ONCE = 524288"

definition MAX_WRITE_AT_ONCE :: nat where
  "MAX_WRITE_AT_ONCE = 524288"

text \<open>
  The two transfer loops are written as a loop body and the recursion over it: the
  body either returns from the function or goes round again.
\<close>

datatype ('s, 'r) iteration = Again 's | Return 'r

text \<open>
  One round of \<open>pv__transfer_read_repeated (fd, buf, count)\<close> with
  \<open>buf = transfer_buffer + pos\<close>. Every \<open>read\<close> stores its bytes in the buffer at once.
  Going round again carries the world, the buffer and \<open>nread\<close>; returning gives the
  return value (\<open>Failed\<close> for a negative one, with the error number), the buffer and
  the world.
\<close>

definition read_repeated_body ::
  "world \<Rightarrow> char list \<Rightarrow> nat \<Rightarrow> nat \<Rightarrow> nat
     \<Rightarrow> (world \<times> char list \<times> nat, io_result \<times> char list \<times> world) iteration" where
  "read_repeated_body w buf pos count total_read =
     (case sys_read w (if count > MAX_READ_AT_ONCE then MAX_READ_AT_ONCE else count) of
        (Failed e, bytes, w1) \<Rightarrow> Return (Failed e, buf, w1)
      | (Done nread, bytes, w1) \<Rightarrow>
          (let buf1 = write_at buf pos bytes;
               total1 = total_read + nread;
               count1 = count - nread
           in if nread = 0 then Return (Done total1, buf1, w1)
              else (case timer_expired w1 of
                      (expired, w2) \<Rightarrow>
                        if expired then Return (Done total1, buf1, w2)
                        else if count1 > 0
                        then (case sys_poll w2 of
                                (ready, w3) \<Rightarrow>
                                  if \<not> ready then Return (Done total1, buf1, w3)
                                  else Again (w3, buf1, nread))
                        else Again (w2, buf1, nread))))"

function pv__transfer_read_repeated ::
  "world \<Rightarrow> char list \<Rightarrow> nat \<Rightarrow> nat \<Rightarrow> nat \<Rightarrow> io_result \<times> char list \<times> world" where
  "pv__transfer_read_repeated w buf pos count total_read =
     (if count > 0
      then (case read_repeated_body w buf pos count total_read of
              Return r \<Rightarrow> r
            | Again (w1, buf1, nread) \<Rightarrow>
                pv__transfer_read_repeated w1 buf1 (pos + nread) (count - nread)
                  (total_read + nread))
      else (Done total_read, buf, w))"
  by pat_completeness auto
termination
  by (relation "measure (\<lambda>(w, buf, pos, count, total_read). count)")
     (auto simp: read_repeated_body_def Let_def split: prod.splits io_result.splits if_splits)

declare pv__transfer_read_repeated.simps [simp del]

text \<open>
  One round of \<open>pv__transfer_write_repeated (STDOUT_FILENO, buf, count, sync_after_write)\<close>
  with \<open>buf = transfer_buffer + pos\<close>. Going round again carries the world and
  \<open>nwritten\<close>.
\<close>

definition write_repeated_body ::
  "world \<Rightarrow> char list \<Rightarrow> nat \<Rightarrow> nat \<Rightarrow> bool \<Rightarrow> nat
     \<Rightarrow> (world \<times> nat, io_result \<times> world) iteration" where
  "write_repeated_body w buf pos count sync total_written =
     (let asked_to_write = (if count > MAX_WRITE_AT_ONCE then MAX_WRITE_AT_ONCE else count)
      in case sys_write w (take asked_to_write (drop pos buf)) of
           (Failed e, w1) \<Rightarrow>
             if e = EINTR \<or> e = EAGAIN then Return (Done total_written, w1)
             else Return (Failed e, w1)
         | (Done nwritten, w1) \<Rightarrow>
             (case (if sync then fdatasync_eio w1 else (False, w1)) of
                (sync_failed, w2) \<Rightarrow>
                  if sync_failed then Return (Failed EIO, w2)
                  else (let total1 = total_written + nwritten
                        in if nwritten = 0 then Return (Done total1, w2)
                           else (case timer_expired w2 of
                                   (expired, w3) \<Rightarrow>
                                     if expired then Return (Done total1, w3)
                                     else Again (w3, nwritten)))))"

function pv__transfer_write_repeated ::
  "world \<Rightarrow> char list \<Rightarrow> nat \<Rightarrow> nat \<Rightarrow> bool \<Rightarrow> nat \<Rightarrow> io_result \<times> world" where
  "pv__transfer_write_repeated w buf pos count sync total_written =
     (if count > 0
      then (case write_repeated_body w buf pos count sync total_written of
              Return r \<Rightarrow> r
            | Again (w1, nwritten) \<Rightarrow>
                pv__transfer_write_repeated w1 buf (pos + nwritten) (count - nwritten) sync
                  (total_written + nwritten))
      else (Done total_written, w))"
  by pat_completeness auto
termination
  by (relation "measure (\<lambda>(w, buf, pos, count, sync, total_written). count)")
     (auto simp: write_repeated_body_def Let_def split: prod.splits io_result.splits if_splits)

declare pv__transfer_write_repeated.simps [simp del]

text \<open>
  The \<open>HAVE_SPLICE\<close> block of \<open>pv__transfer_read\<close>. The result is \<open>nread\<close>,
  \<open>do_not_skip_errors\<close>, the state and the world; \<open>Done 0\<close> is the initial \<open>nread = 0\<close>.
  \<open>(size_t) allowed\<close> is the conversion of an \<open>off_t\<close> to 64 unsigned bits.
\<close>

definition pv__transfer_read_splice ::
  "pvstate \<Rightarrow> world \<Rightarrow> int \<Rightarrow> int \<Rightarrow> nat \<Rightarrow> bool \<Rightarrow> io_result \<times> bool \<times> pvstate \<times> world" where
  "pv__transfer_read_splice state w fd allowed bytes_can_read do_not_skip_errors =
     (let st0 = state\<lparr>splice_used := False\<rparr>
      in if \<not> linemode st0 \<and> \<not> no_splice st0 \<and> fd \<noteq> splice_failed_fd st0 \<and> to_write st0 = 0
         then (let bytes_to_splice =
                     (if rate_limit st0 > 0 \<or> allowed \<noteq> 0 then nat (allowed mod 2 ^ 64)
                      else bytes_can_read)
               in case sys_splice w bytes_to_splice of
                    (nread, w1) \<Rightarrow>
                      (let st1 = st0\<lparr>splice_used := True\<rparr>
                       in case nread of
                            Failed e \<Rightarrow>
                              if e = EINVAL
                              then (nread, do_not_skip_errors,
                                    st1\<lparr>splice_failed_fd := fd, splice_used := False\<rparr>, w1)
                              else if e = EAGAIN then (nread, do_not_skip_errors, st1, w1)
                              else (nread, do_not_skip_errors, st1\<lparr>splice_used := False\<rparr>, w1)
                          | Done n \<Rightarrow>
                              if n > 0
                              then (let st2 = st1\<lparr>written := int n\<rparr>
                                    in if sync_after_write st2
                                       then (case fdatasync_eio w1 of
                                               (sync_failed, w2) \<Rightarrow>
                                                 if sync_failed then (Failed EIO, True, st2, w2)
                                                 else (nread, do_not_skip_errors, st2, w2))
                                       else (nread, do_not_skip_errors, st2, w1))
                              else (nread, do_not_skip_errors, st1\<lparr>splice_used := False\<rparr>, w1)))
         else (Done 0, do_not_skip_errors, st0, w))"

text \<open>
  The skip distance that \<open>pv__transfer_read\<close> starts from (the block that sets
  \<open>amount_to_skip\<close> before it is rounded to a block boundary and trimmed to the room in
  the buffer). \<open>read_errors_in_a_row\<close> has been incremented for the present error.
\<close>

definition initial_amount_to_skip :: "pvstate \<Rightarrow> int" where
  "initial_amount_to_skip state =
     (if error_skip_block state > 0 then error_skip_block state
      else if read_errors_in_a_row state < 10
      then (if read_errors_in_a_row state < 5 then 1 else 2)
      else if read_errors_in_a_row state < 20
      then (let shift_by = nat (read_errors_in_a_row state - 10) in 2 ^ shift_by)
      else 512)"

text \<open>
  The rounding of the skip distance to the next multiple of itself, and its trimming to
  the room left in the buffer.
\<close>

definition rounded_amount_to_skip :: "int \<Rightarrow> int \<Rightarrow> nat \<Rightarrow> int" where
  "rounded_amount_to_skip amount0 orig_offset bytes_can_read =
     (let amount1 =
            (if amount0 > 1
             then (let skip_offset0 = s64 (orig_offset + amount0);
                       skip_offset1 = s64 (skip_offset0 - skip_offset0 smod amount0)
                   in if skip_offset1 > orig_offset
                      then s64 (skip_offset1 - orig_offset) else amount0)
             else amount0)
      in if amount1 > int bytes_can_read then int bytes_can_read else amount1)"

text \<open>
  The end of \<open>pv__transfer_read\<close>, once the input is known to be seekable and to be at
  \<open>orig_offset\<close>: seek past the error (a second time by one byte if the first seek
  fails), clear the skipped part of the buffer and move the read position.
\<close>

definition pv__transfer_read_skip ::
  "pvstate \<Rightarrow> world \<Rightarrow> nat \<Rightarrow> bool \<Rightarrow> bool \<Rightarrow> int \<Rightarrow> int \<times> pvstate \<times> world \<times> bool \<times> bool" where
  "pv__transfer_read_skip state w bytes_can_read eof_in eof_out orig_offset =
     (let amount_to_skip =
            rounded_amount_to_skip (initial_amount_to_skip state) orig_offset bytes_can_read
      in case lseek_set w (s64 (orig_offset + amount_to_skip)) of
           (skip_offset2, err2, w2) \<Rightarrow>
             (case (if skip_offset2 < 0 then lseek_set w2 (s64 (orig_offset + 1))
                    else (skip_offset2, err2, w2)) of
                (skip_offset, err, w3) \<Rightarrow>
                  (let eof_in1 = (if skip_offset < 0 then True else eof_in);
                       w4 = (if skip_offset < 0 \<and> err \<noteq> Some EINVAL
                             then pv_error w3 ''failed to seek past error'' else w3);
                       amount_skipped = (if skip_offset < 0 then - 1
                                         else s64 (skip_offset - orig_offset))
                   in if amount_skipped > 0
                      then (1,
                            state\<lparr>transfer_buffer :=
                                    map_option (\<lambda>buf. write_at buf (read_position state)
                                        (replicate (nat amount_skipped) NUL))
                                      (transfer_buffer state),
                                  read_position := read_position state + nat amount_skipped\<rparr>,
                            (if skip_errors state < 2
                             then pv_error w4 ''skipped past read error'' else w4),
                            eof_in1, eof_out)
                      else (1, state, w4, True,
                            (if write_position state \<ge> read_position state then True
                             else eof_out)))))"

text \<open>
  The part of \<open>pv__transfer_read\<close> after a read error that is not transient: from
  \<open>state->status.exit_status |= 16\<close> on. The result is the return value, the state, the
  world and the two end-of-file flags.
\<close>

definition pv__transfer_read_error ::
  "pvstate \<Rightarrow> world \<Rightarrow> bool \<Rightarrow> nat \<Rightarrow> bool \<Rightarrow> bool \<Rightarrow> int \<times> pvstate \<times> world \<times> bool \<times> bool" where
  "pv__transfer_read_error state w do_not_skip_errors bytes_can_read eof_in eof_out =
     (let st1 = state\<lparr>exit_status := exit_status state OR 16,
                       read_errors_in_a_row := s64 (read_errors_in_a_row state + 1)\<rparr>;
          eof_out_if_drained = (if write_position st1 \<ge> read_position st1 then True else eof_out)
      in if do_not_skip_errors
         then (1, st1, pv_error w ''read failed'', True, eof_out_if_drained)
         else (let w1 = (if \<not> read_error_warning_shown st1
                         then pv_error w ''warning: read errors detected'' else w);
                   st2 = st1\<lparr>read_error_warning_shown := True\<rparr>;
                   orig_offset = lseek_cur w1
               in if 0 > orig_offset
                  then (1, st2, pv_error w1 ''file is not seekable'', True, eof_out_if_drained)
                  else pv__transfer_read_skip st2 w1 bytes_can_read eof_in eof_out orig_offset))"

text \<open>
  \<open>pv__transfer_read (state, fd, eof_in, eof_out, allowed)\<close>. The two flags are passed
  by reference in the source; here their new values are part of the result. The buffer
  has been allocated by \<open>pv_transfer\<close> before the call; a \<open>read\<close> into a missing buffer
  would fail with \<open>EFAULT\<close>.
\<close>

definition pv__transfer_read ::
  "pvstate \<Rightarrow> world \<Rightarrow> int \<Rightarrow> bool \<Rightarrow> bool \<Rightarrow> int \<Rightarrow> int \<times> pvstate \<times> world \<times> bool \<times> bool" where
  "pv__transfer_read state w fd eof_in eof_out allowed =
     (let do_not_skip_errors0 = (skip_errors state = 0);
          bytes_can_read = buffer_size state - read_position state
      in case pv__transfer_read_splice state w fd allowed bytes_can_read do_not_skip_errors0 of
           (nread0, do_not_skip_errors, st1, w1) \<Rightarrow>
             (case (if \<not> splice_used st1
                    then (case transfer_buffer st1 of
                            None \<Rightarrow> (Failed EFAULT, st1, w1)
                          | Some buf0 \<Rightarrow>
                              (case pv__transfer_read_repeated w1 buf0
                                      (read_position st1) bytes_can_read 0 of
                                 (nread, buf, w2) \<Rightarrow>
                                   (nread, st1\<lparr>transfer_buffer := Some buf\<rparr>, w2)))
                    else (nread0, st1, w1)) of
                (nread, st2, w2) \<Rightarrow>
                  (case nread of
                     Done n \<Rightarrow>
                       if n = 0
                       then (1, st2, w2, True,
                             (if write_position st2 \<ge> read_position st2 then True else eof_out))
                       else (let st3 = st2\<lparr>read_errors_in_a_row := 0\<rparr>
                             in (1,
                                 (if \<not> splice_used st3
                                  then st3\<lparr>read_position := read_position st3 + n\<rparr> else st3),
                                 w2, eof_in, eof_out))
                   | Failed e \<Rightarrow>
                       if e = EINTR \<or> e = EAGAIN
                       then (case is_data_ready w2 False False of
                               (r, fd_in_ready, fd_out_ready, err, w3) \<Rightarrow>
                                 (0, st2, w3, eof_in, eof_out))
                       else pv__transfer_read_error st2 w2 do_not_skip_errors bytes_can_read
                              eof_in eof_out)))"

text \<open>
  \<open>pv_memrchr (buffer, match, length)\<close>, the loop of the file itself: the index of the
  last matching byte among the first \<open>length\<close>, or \<open>None\<close> for NULL.
\<close>

fun pv_memrchr :: "char list \<Rightarrow> char \<Rightarrow> nat \<Rightarrow> nat option" where
  "pv_memrchr buffer match 0 = None"
| "pv_memrchr buffer match (Suc n) =
     (if buffer ! n = match then Some n else pv_memrchr buffer match n)"

definition newline :: char where
  "newline = CHR 0x0A"

text \<open>
  \<open>pv__transfer_write (state, eof_in, eof_out, lineswritten)\<close>. \<open>lineswritten\<close> is a
  pointer that may be NULL. The function is only called with \<open>to_write > 0\<close>. The alarm
  around the write has no effect of its own in the model: an interrupted \<open>write\<close> is
  a result \<open>Failed EINTR\<close> of the world.
\<close>

definition pv__transfer_write ::
  "pvstate \<Rightarrow> world \<Rightarrow> bool \<Rightarrow> bool \<Rightarrow> int option
     \<Rightarrow> int \<times> pvstate \<times> world \<times> bool \<times> bool \<times> int option" where
  "pv__transfer_write state w eof_in eof_out lineswritten =
     (case transfer_buffer state of
        None \<Rightarrow>
          (1, state\<lparr>exit_status := exit_status state OR 64, written := - 1\<rparr>,
           pv_error w ''no transfer buffer allocated'', eof_in, True, lineswritten)
      | Some buf \<Rightarrow>
          (case (if discard_input state then (Done (nat (to_write state)), w)
                 else if to_write state > 0
                 then pv__transfer_write_repeated w buf (write_position state)
                        (nat (to_write state)) (sync_after_write state) 0
                 else (Done 0, w)) of
             (nwritten, w1) \<Rightarrow>
               (case nwritten of
                  Done n \<Rightarrow>
                    if n = 0 then (1, state, w1, eof_in, True, lineswritten)
                    else (let lineswritten1 =
                                (if linemode state
                                 then map_option
                                        (\<lambda>l. (let separator = (if null_terminated_lines state
                                                                then NUL else newline);
                                                   lines = length (filter (\<lambda>c. c = separator)
                                                              (take n (drop (write_position state) buf)))
                                               in s64 (l + int lines)))
                                        lineswritten
                                 else lineswritten);
                              st1 = state\<lparr>write_position := write_position state + n,
                                          written := s64 (written state + int n)\<rparr>;
                              st2 = (if outputbuf_required st1
                                     then (let new_portion_length =
                                                 (if n > lastoutput_length st1
                                                  then lastoutput_length st1 else n);
                                               old_portion_length =
                                                 lastoutput_length st1 - new_portion_length;
                                               lob1 = (if old_portion_length > 0
                                                       then write_at (lastoutput_buffer st1) 0
                                                              (take old_portion_length
                                                                 (drop new_portion_length
                                                                    (lastoutput_buffer st1)))
                                                       else lastoutput_buffer st1)
                                           in st1\<lparr>lastoutput_buffer :=
                                                   write_at lob1 old_portion_length
                                                     (take new_portion_length
                                                        (drop (write_position st1 - new_portion_length)
                                                           buf))\<rparr>)
                                     else st1)
                          in if write_position st2 \<ge> read_position st2
                             then (1, st2\<lparr>write_position := 0, read_position := 0\<rparr>, w1, eof_in,
                                   (if eof_in then True else eof_out), lineswritten1)
                             else (1, st2, w1, eof_in, eof_out, lineswritten1))
                | Failed e \<Rightarrow>
                    if e = EINTR \<or> e = EAGAIN
                    then (case is_data_ready w1 False False of
                            (r, fd_in_ready, fd_out_ready, err, w2) \<Rightarrow>
                              (0, state, w2, eof_in, eof_out, lineswritten))
                    else if e = EPIPE then (0, state, w1, True, True, lineswritten)
                    else (1, state\<lparr>exit_status := exit_status state OR 16, written := - 1\<rparr>,
                          pv_error w1 ''write failed'', eof_in, True, lineswritten))))"

text \<open>
  \<open>pv_transfer\<close>, first part: the direct I/O flag, the change of file descriptor, and
  the allocation or growth of the buffer (\<open>pv__allocate_aligned_buffer\<close> gives a zeroed
  buffer). The result says whether the function goes on (\<open>False\<close>: it returns -1).
\<close>

definition pv_transfer_prepare :: "pvstate \<Rightarrow> world \<Rightarrow> int \<Rightarrow> bool \<times> pvstate \<times> world" where
  "pv_transfer_prepare state w fd =
     (let st1 = (if direct_io_changed state then state\<lparr>direct_io_changed := False\<rparr> else state);
          st2 = (if fd \<noteq> last_read_skip_fd st1
                 then st1\<lparr>last_read_skip_fd := fd, read_errors_in_a_row := 0,
                           read_error_warning_shown := False\<rparr>
                 else st1)
      in case (case transfer_buffer st2 of
                 Some buf \<Rightarrow> (True, st2, w)
               | None \<Rightarrow>
                   (case sys_alloc w of
                      (ok, w1) \<Rightarrow>
                        if \<not> ok
                        then (False, st2\<lparr>exit_status := exit_status st2 OR 64\<rparr>,
                              pv_error w1 ''buffer allocation failed'')
                        else (True,
                              st2\<lparr>transfer_buffer :=
                                    Some (replicate (target_buffer_size st2 + 32) NUL),
                                  buffer_size := target_buffer_size st2\<rparr>, w1))) of
           (ok, st3, w2) \<Rightarrow>
             if \<not> ok then (False, st3, w2)
             else if buffer_size st3 < target_buffer_size st3
             then (case sys_alloc w2 of
                     (ok2, w3) \<Rightarrow>
                       if \<not> ok2
                       then (True, st3\<lparr>target_buffer_size := buffer_size st3\<rparr>, w3)
                       else (True,
                             st3\<lparr>transfer_buffer :=
                                   map_option
                                     (\<lambda>old. write_at (replicate (target_buffer_size st3 + 32) NUL) 0
                                               (take (buffer_size st3) old))
                                     (transfer_buffer st3),
                                 buffer_size := target_buffer_size st3\<rparr>, w3))
             else (True, st3, w2))"

text \<open>The line-mode truncation of \<open>to_write\<close> to the last newline.\<close>

definition linemode_truncate :: "pvstate \<Rightarrow> pvstate" where
  "linemode_truncate state =
     (if to_write state > 0 \<and> linemode state \<and> \<not> null_terminated_lines state
      then (case transfer_buffer state of
              None \<Rightarrow> state
            | Some buf \<Rightarrow>
                (case pv_memrchr (drop (write_position state) buf) newline (nat (to_write state)) of
                   None \<Rightarrow> state
                 | Some end_index \<Rightarrow> state\<lparr>to_write := int end_index + 1\<rparr>))
      else state)"

text \<open>The \<open>MAXIMISE_BUFFER_FILL\<close> block: unwritten bytes move to the start of the buffer.\<close>

definition maximise_buffer_fill :: "pvstate \<Rightarrow> pvstate" where
  "maximise_buffer_fill state =
     (if write_position state > 0
      then (if write_position state < read_position state
            then state\<lparr>transfer_buffer :=
                         map_option
                           (\<lambda>buf. write_at buf 0
                                     (take (read_position state - write_position state)
                                        (drop (write_position state) buf)))
                           (transfer_buffer state),
                       read_position := read_position state - write_position state,
                       write_position := 0\<rparr>
            else state\<lparr>write_position := 0, read_position := 0\<rparr>)
      else state)"

text \<open>
  \<open>pv_transfer\<close>, last part, after the read phase: the line-mode truncation, the write
  phase and the rotation of the buffer. The result is the return value, the state,
  the world, the two flags and \<open>*lineswritten\<close>.
\<close>

definition pv_transfer_finish ::
  "pvstate \<Rightarrow> world \<Rightarrow> bool \<Rightarrow> bool \<Rightarrow> int option \<Rightarrow> bool
     \<Rightarrow> int \<times> pvstate \<times> world \<times> bool \<times> bool \<times> int option" where
  "pv_transfer_finish state w eof_in eof_out lineswritten ready_to_write =
     (let st4 = linemode_truncate state
      in case (if ready_to_write \<and> \<not> splice_used st4
                  \<and> read_position st4 > write_position st4
                  \<and> to_write st4 > 0 \<and> lineswritten \<noteq> None
               then pv__transfer_write st4 w eof_in eof_out lineswritten
               else (1, st4, w, eof_in, eof_out, lineswritten)) of
           (rc2, st5, w3, eof_in2, eof_out2, lw2) \<Rightarrow>
             if rc2 = 0 then (0, st5, w3, eof_in2, eof_out2, lw2)
             else (let st6 = maximise_buffer_fill st5
                   in (written st6, st6, w3, eof_in2, eof_out2, lw2)))"

text \<open>
  \<open>pv_transfer\<close>, middle part, from the reset of \<open>*lineswritten\<close> to the read phase.
\<close>

definition pv_transfer_main ::
  "pvstate \<Rightarrow> world \<Rightarrow> int \<Rightarrow> bool \<Rightarrow> bool \<Rightarrow> int \<Rightarrow> int option
     \<Rightarrow> int \<times> pvstate \<times> world \<times> bool \<times> bool \<times> int option" where
  "pv_transfer_main state w fd eof_in eof_out allowed lineswritten =
     (let lw0 = (if linemode state then map_option (\<lambda>l. 0) lineswritten else lineswritten)
      in if eof_in \<and> eof_out then (0, state, w, eof_in, eof_out, lw0)
         else (let check_read = (\<not> eof_in \<and> read_position state < buffer_size state);
                   to_write0 = int (read_position state - write_position state);
                   st1 = state\<lparr>to_write :=
                                 (if (rate_limit state > 0 \<or> allowed > 0) \<and> to_write0 > allowed
                                  then allowed else to_write0)\<rparr>;
                   check_write = (\<not> eof_out \<and> to_write st1 > 0)
               in case is_data_ready w check_read check_write of
                    (n, ready_to_read, ready_to_write, err, w1) \<Rightarrow>
                      if n < 0
                      then (if err = Some EINTR then (0, st1, w1, eof_in, eof_out, lw0)
                            else (- 1, st1\<lparr>exit_status := exit_status st1 OR 16\<rparr>,
                                  pv_error w1 ''select call failed'', eof_in, eof_out, lw0))
                      else (case (if ready_to_read
                                  then pv__transfer_read (st1\<lparr>written := 0\<rparr>) w1 fd eof_in eof_out allowed
                                  else (1, st1\<lparr>written := 0\<rparr>, w1, eof_in, eof_out)) of
                              (rc, st3, w2, eof_in1, eof_out1) \<Rightarrow>
                                if rc = 0 then (0, st3, w2, eof_in1, eof_out1, lw0)
                                else pv_transfer_finish st3 w2 eof_in1 eof_out1 lw0 ready_to_write)))"

text \<open>
  \<open>pv_transfer (state, fd, eof_in, eof_out, allowed, lineswritten)\<close>. The state pointer
  is never NULL at the call in \<open>pv_main_loop\<close>.
\<close>

definition pv_transfer ::
  "pvstate \<Rightarrow> world \<Rightarrow> int \<Rightarrow> bool \<Rightarrow> bool \<Rightarrow> int \<Rightarrow> int option
     \<Rightarrow> int \<times> pvstate \<times> world \<times> bool \<times> bool \<times> int option" where
  "pv_transfer state w fd eof_in eof_out allowed lineswritten =
     (case pv_transfer_prepare state w fd of
        (ok, st1, w1) \<Rightarrow>
          if \<not> ok then (- 1, st1, w1, eof_in, eof_out, lineswritten)
          else pv_transfer_main st1 w1 fd eof_in eof_out allowed lineswritten)"

text \<open>
  The adaptive schedule in the words of the specification: five times 1, five times 2,
  then 4, 8, 16, ... doubling, clamped at 512; \<open>n\<close> counts the consecutive errors from 1.
\<close>

definition spec_skip_schedule :: "int \<Rightarrow> int" where
  "spec_skip_schedule n =
     (if n \<le> 5 then 1 else if n \<le> 10 then 2 else min 512 (4 * 2 ^ nat (n - 11)))"

text \<open>The components of the result of \<open>pv_transfer\<close> (and of its last part).\<close>

definition res_rc :: "int \<times> pvstate \<times> world \<times> bool \<times> bool \<times> int option \<Rightarrow> int" where
  "res_rc r = fst r"

definition res_state :: "int \<times> pvstate \<times> world \<times> bool \<times> bool \<times> int option \<Rightarrow> pvstate" where
  "res_state r = fst (snd r)"

definition res_world :: "int \<times> pvstate \<times> world \<times> bool \<times> bool \<times> int option \<Rightarrow> world" where
  "res_world r = fst (snd (snd r))"

definition res_eof_in :: "int \<times> pvstate \<times> world \<times> bool \<times> bool \<times> int option \<Rightarrow> bool" where
  "res_eof_in r = fst (snd (snd (snd r)))"

definition res_eof_out :: "int \<times> pvstate \<times> world \<times> bool \<times> bool \<times> int option \<Rightarrow> bool" where
  "res_eof_out r = fst (snd (snd (snd (snd r))))"

definition res_lineswritten :: "int \<times> pvstate \<times> world \<times> bool \<times> bool \<times> int option \<Rightarrow> int option" where
  "res_lineswritten r = snd (snd (snd (snd (snd r))))"

text \<open>Calling \<open>pv_transfer\<close> again on the result of a call, as the main loop does.\<close>

definition pv_transfer_again ::
  "int \<Rightarrow> int \<Rightarrow> int \<times> pvstate \<times> world \<times> bool \<times> bool \<times> int option
     \<Rightarrow> int \<times> pvstate \<times> world \<times> bool \<times> bool \<times> int option" where
  "pv_transfer_again fd allowed r =
     pv_transfer (res_state r) (res_world r) fd (res_eof_in r) (res_eof_out r) allowed
       (res_lineswritten r)"

text \<open>
  A state in line mode with an 8-byte buffer, and a world whose input arrives in two
  parts: the first \<open>read\<close> gives three bytes and no more is ready, the first \<open>select\<close>
  finds input and output ready, the second only the output.
\<close>

definition line_state :: "bool \<Rightarrow> pvstate" where
  "line_state nul = pv_state_alloc\<lparr>linemode := True, null_terminated_lines := nul,
                                     target_buffer_size := 8\<rparr>"

definition two_part_world :: "char list \<Rightarrow> world" where
  "two_part_world content =
     (quiet_world content)\<lparr>reads := [Done 2], polls := [False],
                             selects := [Selected True True, Selected False True]\<rparr>"

section \<open>The display (display.c)\<close>



text \<open>
  The components of the display, in the order of \<open>pv_display_component\<close>; the enumeration
  ends with \<open>PV_COMPONENT__MAX\<close>, the number of components.
\<close>

datatype pv_display_component =
    PV_COMPONENT_STRING | PV_COMPONENT_PROGRESS | PV_COMPONENT_BYTES | PV_COMPONENT_TIMER
  | PV_COMPONENT_RATE | PV_COMPONENT_AVERAGERATE | PV_COMPONENT_ETA | PV_COMPONENT_FINETA
  | PV_COMPONENT_NAME | PV_COMPONENT_BUFPERCENT | PV_COMPONENT_OUTPUTBUF

text \<open>
  A segment of the format (\<open>state->display.format[n]\<close>, fields \<open>type\<close>, \<open>str_start\<close>,
  \<open>str_length\<close>) and a component (\<open>state->display.component[t]\<close>, fields \<open>required\<close>,
  \<open>content\<close>, \<open>length\<close>). The content is the string in the buffer of
  \<open>PV_SIZEOF_COMPONENT_STR\<close> bytes.
\<close>

record format_segment =
  seg_type :: pv_display_component
  str_start :: nat
  str_length :: nat

record component =
  required :: bool
  content :: string
  content_length :: nat

text \<open>
  The part of \<open>state->display\<close> that the format is kept in and the display line is built
  in. \<open>format\<close> holds the first \<open>format_segment_count\<close> entries of the array;
  \<open>display_buffer\<close> is the string in the display buffer, of which
  \<open>display_buffer_size\<close> is the size; \<open>output_length\<close> is the field
  \<open>lastoutput_length\<close>.
\<close>

record display =
  format :: "format_segment list"
  component :: "pv_display_component \<Rightarrow> component"
  output_length :: nat
  display_buffer :: string
  display_buffer_size :: nat
  display_string_len :: nat
  prev_screen_width :: nat

definition PV_FORMAT_ARRAY_MAX :: nat where
  "PV_FORMAT_ARRAY_MAX = 100"

definition PV_SIZEOF_COMPONENT_STR :: nat where
  "PV_SIZEOF_COMPONENT_STR = 1024"

definition PV_SIZEOF_LASTOUTPUT_BUFFER :: nat where
  "PV_SIZEOF_LASTOUTPUT_BUFFER = 256"

text \<open>\<open>str[i]\<close> for a string kept without its terminating NUL.\<close>

definition c_at :: "string \<Rightarrow> nat \<Rightarrow> char" where
  "c_at s i = (if i < length s then s ! i else NUL)"

text \<open>
  \<open>strtoul (nptr, &endptr, 10)\<close> of the C library, in the C locale: white space, an
  optional sign, decimal digits. The result is the value (\<open>ULONG_MAX\<close> when the digits
  exceed it, negated in \<open>unsigned long\<close> after a minus sign) and the number of characters
  up to \<open>endptr\<close>, which is 0 when there are no digits.
\<close>

definition c_isspace :: "char \<Rightarrow> bool" where
  "c_isspace c = (c = CHR '' '' \<or> c = CHR 0x09 \<or> c = CHR 0x0A \<or> c = CHR 0x0B
                  \<or> c = CHR 0x0C \<or> c = CHR 0x0D)"

definition strtoul_10 :: "string \<Rightarrow> nat \<times> nat" where
  "strtoul_10 nptr =
     (let blanks = takeWhile c_isspace nptr;
          after_blanks = drop (length blanks) nptr;
          sign_length = (if c_hd after_blanks = CHR ''-'' \<or> c_hd after_blanks = CHR ''+''
                         then 1 else 0 :: nat);
          digits = takeWhile pv__isdigit (drop sign_length after_blanks);
          magnitude = foldl (\<lambda>a c. a * 10 + nat (digit_value c)) 0 digits
      in if digits = [] then (0, 0)
         else (if magnitude \<ge> 2 ^ 64 then 2 ^ 64 - 1
               else if c_hd after_blanks = CHR ''-'' then (2 ^ 64 - magnitude) mod 2 ^ 64
               else magnitude,
               length blanks + sign_length + length digits))"

text \<open>
  The end of one round of the loop of \<open>pv__format_init\<close>: the component of the segment is
  marked as required and the segment is stored.
\<close>

definition add_segment :: "display \<Rightarrow> pv_display_component \<Rightarrow> nat \<Rightarrow> nat \<Rightarrow> display" where
  "add_segment d t start len =
     (let d1 = (if t \<noteq> PV_COMPONENT_STRING
                then d\<lparr>component := (component d)(t := (component d t)\<lparr>required := True\<rparr>)\<rparr>
                else d)
      in d1\<lparr>format := format d1 @ [\<lparr>seg_type = t, str_start = start, str_length = len\<rparr>]\<rparr>)"

text \<open>
  One round of the loop of \<open>pv__format_init\<close> (with \<open>HAVE_STRTOUL\<close>), at the position
  \<open>strpos\<close> of the format string. Going round again carries the position as it is
  before the \<open>strpos++\<close> of the loop; the round that finds the string ended after a
  percent sign (and a number) leaves the loop.
\<close>

definition format_init_body :: "string \<Rightarrow> nat \<Rightarrow> display \<Rightarrow> (nat \<times> display, display) iteration" where
  "format_init_body formatstr strpos d =
     (if c_at formatstr strpos = CHR ''%''
      then (let strpos1 = strpos + 1
            in case strtoul_10 (drop strpos1 formatstr) of
                 (number_prefix, consumed) \<Rightarrow>
                   if c_at formatstr (strpos1 + consumed) = NUL then Return d
                   else (let strpos2 = strpos1 + consumed;
                             c = c_at formatstr strpos2
                         in if c = CHR ''p'' then Again (strpos2, add_segment d PV_COMPONENT_PROGRESS 0 0)
                            else if c = CHR ''t'' then Again (strpos2, add_segment d PV_COMPONENT_TIMER 0 0)
                            else if c = CHR ''e'' then Again (strpos2, add_segment d PV_COMPONENT_ETA 0 0)
                            else if c = CHR ''I'' then Again (strpos2, add_segment d PV_COMPONENT_FINETA 0 0)
                            else if c = CHR ''A''
                            then (let number_prefix1 =
                                        (if number_prefix > PV_SIZEOF_LASTOUTPUT_BUFFER
                                         then PV_SIZEOF_LASTOUTPUT_BUFFER else number_prefix);
                                      number_prefix2 = (if number_prefix1 < 1 then 1 else number_prefix1)
                                  in Again (strpos2,
                                       add_segment (d\<lparr>output_length := number_prefix2\<rparr>)
                                         PV_COMPONENT_OUTPUTBUF 0 0))
                            else if c = CHR ''r'' then Again (strpos2, add_segment d PV_COMPONENT_RATE 0 0)
                            else if c = CHR ''a'' then Again (strpos2, add_segment d PV_COMPONENT_AVERAGERATE 0 0)
                            else if c = CHR ''b'' then Again (strpos2, add_segment d PV_COMPONENT_BYTES 0 0)
                            else if c = CHR ''T'' then Again (strpos2, add_segment d PV_COMPONENT_BUFPERCENT 0 0)
                            else if c = CHR ''N'' then Again (strpos2, add_segment d PV_COMPONENT_NAME 0 0)
                            else if c = CHR ''%'' then Again (strpos2, add_segment d PV_COMPONENT_STRING strpos2 1)
                            else Again (strpos2, add_segment d PV_COMPONENT_STRING (strpos2 - 1) 2)))
      else (let foundlength = length (takeWhile (\<lambda>c. c \<noteq> CHR ''%'') (drop strpos formatstr))
            in Again (strpos + foundlength - 1,
                      add_segment d PV_COMPONENT_STRING strpos foundlength)))"

function format_init_loop :: "string \<Rightarrow> nat \<Rightarrow> nat \<Rightarrow> display \<Rightarrow> display" where
  "format_init_loop formatstr strpos segment d =
     (if c_at formatstr strpos \<noteq> NUL \<and> segment < PV_FORMAT_ARRAY_MAX
      then (case format_init_body formatstr strpos d of
              Return d1 \<Rightarrow> d1
            | Again (strpos1, d1) \<Rightarrow> format_init_loop formatstr (strpos1 + 1) (segment + 1) d1)
      else d)"
  by pat_completeness auto
termination
  by (relation "measure (\<lambda>(formatstr, strpos, segment, d). PV_FORMAT_ARRAY_MAX - segment)") auto

declare format_init_loop.simps [simp del]

text \<open>
  \<open>pv__format_init (state)\<close>: \<open>name\<close> is \<open>state->control.name\<close> and \<open>formatstr\<close> the format
  string in use (\<open>control.format_string\<close>, or else \<open>control.default_format\<close>), both
  \<open>None\<close> for NULL. The name is stored as by the format \<open>%9.500s:\<close>.
\<close>

definition pv__format_init :: "string option \<Rightarrow> string option \<Rightarrow> display \<Rightarrow> display" where
  "pv__format_init name formatstr d =
     (let d1 = d\<lparr>format := [],
                  component := (\<lambda>t. \<lparr>required = False, content = [], content_length = 0\<rparr>)\<rparr>;
          d2 = (case name of
                  None \<Rightarrow> d1
                | Some n \<Rightarrow>
                    (let shown = take 500 n;
                         text = replicate (9 - length shown) CHR '' '' @ shown @ '':'';
                         stored = take (PV_SIZEOF_COMPONENT_STR - 1) text
                     in d1\<lparr>component := (component d1)
                             (PV_COMPONENT_NAME :=
                                (component d1 PV_COMPONENT_NAME)
                                  \<lparr>content := stored, content_length := length stored\<rparr>)\<rparr>))
      in case formatstr of
           None \<Rightarrow> d2
         | Some f \<Rightarrow> format_init_loop f 0 0 d2)"

text \<open>
  The loop of \<open>pv__format\<close> over the components, for one component. What the \<open>switch\<close>
  stores for a component depends on the transfer, the clock and the locale; it is the
  argument \<open>rendered\<close>, the string in the component's buffer at the end of its case.
  The fixed string and the progress bar get the empty string here.
\<close>

definition format_component ::
  "int \<Rightarrow> (pv_display_component \<Rightarrow> string) \<Rightarrow> pv_display_component \<Rightarrow> component \<Rightarrow> component" where
  "format_component control_size rendered component_type c =
     (if \<not> required c then c
      else if control_size < 1
              \<and> (component_type = PV_COMPONENT_ETA \<or> component_type = PV_COMPONENT_FINETA)
      then c\<lparr>content := [], content_length := 0\<rparr>
      else (let component_content =
                  (if component_type = PV_COMPONENT_STRING \<or> component_type = PV_COMPONENT_PROGRESS
                   then [] else rendered component_type)
            in c\<lparr>content := component_content, content_length := length component_content\<rparr>))"

text \<open>The width taken by everything but the progress bar.\<close>

definition static_portion_size ::
  "(pv_display_component \<Rightarrow> component) \<Rightarrow> format_segment list \<Rightarrow> nat" where
  "static_portion_size components segs =
     foldl (\<lambda>total_width seg.
              if seg_type seg = PV_COMPONENT_STRING then total_width + str_length seg
              else if seg_type seg \<noteq> PV_COMPONENT_PROGRESS
              then total_width + content_length (components (seg_type seg))
              else total_width)
       0 segs"

text \<open>
  The progress bar: \<open>bar\<close> is the string that the code builds for the width left over;
  it is dropped when it does not fit.
\<close>

definition format_progress :: "nat \<Rightarrow> (nat \<Rightarrow> string) \<Rightarrow> display \<Rightarrow> display" where
  "format_progress control_width bar d =
     (if required (component d PV_COMPONENT_PROGRESS)
      then (let static = static_portion_size (component d) (format d);
                component_content = bar static;
                c1 = (component d PV_COMPONENT_PROGRESS)
                       \<lparr>content := component_content, content_length := length component_content\<rparr>;
                c2 = (if (content_length c1 + static) mod 2 ^ 32 > control_width
                      then c1\<lparr>content := [], content_length := 0\<rparr> else c1)
            in d\<lparr>component := (component d)(PV_COMPONENT_PROGRESS := c2)\<rparr>)
      else d)"

text \<open>
  One round, and the whole, of the loop that builds the display line from the segments,
  given the components and the size of the display buffer. \<open>out\<close> is the string in the
  display buffer and \<open>new_display_string_len\<close> the counter of the code. The sizes are
  \<open>size_t\<close>; the comparison with the width is made in \<open>unsigned int\<close>. A round that
  leaves the loop returns the line.
\<close>

definition format_assemble_body ::
  "string \<Rightarrow> (pv_display_component \<Rightarrow> component) \<Rightarrow> nat \<Rightarrow> nat \<Rightarrow> format_segment
     \<Rightarrow> string \<Rightarrow> nat \<Rightarrow> (string \<times> nat, string) iteration" where
  "format_assemble_body formatstr components buffer_bytes control_width seg out
       new_display_string_len =
     (let segment_content =
            (if seg_type seg = PV_COMPONENT_STRING then drop (str_start seg) formatstr
             else content (components (seg_type seg)));
          segment_length =
            (if seg_type seg = PV_COMPONENT_STRING then str_length seg
             else content_length (components (seg_type seg)))
      in if segment_length = 0 then Again (out, new_display_string_len)
         else (let segment_length1 =
                     (if (segment_length + new_display_string_len) mod 2 ^ 64
                           > (buffer_bytes + 2 ^ 64 - 2) mod 2 ^ 64
                      then (buffer_bytes + 2 * 2 ^ 64 - new_display_string_len - 2) mod 2 ^ 64
                      else segment_length)
               in if segment_length1 < 1 then Return out
                  else if (segment_length1 + new_display_string_len) mod 2 ^ 32 > control_width
                  then Return out
                  else Again (out @ take segment_length1 segment_content,
                              (new_display_string_len + segment_length1) mod 2 ^ 64)))"

fun format_assemble ::
  "string \<Rightarrow> (pv_display_component \<Rightarrow> component) \<Rightarrow> nat \<Rightarrow> nat \<Rightarrow> format_segment list
     \<Rightarrow> string \<Rightarrow> nat \<Rightarrow> string" where
  "format_assemble formatstr components buffer_bytes control_width [] out
       new_display_string_len = out"
| "format_assemble formatstr components buffer_bytes control_width (seg # segs) out
       new_display_string_len =
     (case format_assemble_body formatstr components buffer_bytes control_width seg out
             new_display_string_len of
        Return line \<Rightarrow> line
      | Again (out1, new_display_string_len1) \<Rightarrow>
          format_assemble formatstr components buffer_bytes control_width segs out1
            new_display_string_len1)"

text \<open>
  \<open>pv__format\<close> outside numeric mode, from the loop over the components to the end:
  the components, the progress bar, the line, and the spaces that cover the rest of a
  longer line shown before (at most 15; the lengths of display lines are far below the
  range of \<open>int\<close>). The display buffer is there, and cleared before the line is
  built. The spaces are appended by \<open>pv_strlcat\<close> to the buffer of
  \<open>display_buffer_size\<close> bytes.
\<close>

definition pv__format_line ::
  "int \<Rightarrow> nat \<Rightarrow> string \<Rightarrow> (pv_display_component \<Rightarrow> string) \<Rightarrow> (nat \<Rightarrow> string)
     \<Rightarrow> display \<Rightarrow> display" where
  "pv__format_line control_size control_width formatstr rendered bar d =
     (let d1 = d\<lparr>component := (\<lambda>t. format_component control_size rendered t (component d t))\<rparr>;
          d2 = format_progress control_width bar d1;
          line = format_assemble formatstr (component d2) (display_buffer_size d2) control_width
                   (format d2) [] 0;
          new_display_string_len = length line
      in if new_display_string_len < display_string_len d2
            \<and> control_width \<ge> prev_screen_width d2
         then (let spaces_to_add0 = display_string_len d2 - new_display_string_len;
                   spaces_to_add = (if spaces_to_add0 > 15 then 15 else spaces_to_add0);
                   buffer = line @ replicate (display_buffer_size d2 - length line) NUL
               in d2\<lparr>display_buffer :=
                        (case snd (pv_strlcat (Some buffer)
                                     (Some (replicate spaces_to_add CHR '' ''))
                                     (display_buffer_size d2)) of
                           None \<Rightarrow> line | Some b \<Rightarrow> c_str b),
                      display_string_len := new_display_string_len + spaces_to_add,
                      prev_screen_width := control_width\<rparr>)
         else d2\<lparr>display_buffer := line, display_string_len := new_display_string_len,
                 prev_screen_width := control_width\<rparr>)"

text \<open>A format without its segments for the two kinds of estimated time.\<close>

definition without_eta :: "format_segment list \<Rightarrow> format_segment list" where
  "without_eta segs =
     filter (\<lambda>seg. seg_type seg \<noteq> PV_COMPONENT_ETA \<and> seg_type seg \<noteq> PV_COMPONENT_FINETA) segs"

text \<open>
  In the component of a kind of estimated time that is not required, the length is zero:
  so \<open>pv__format_init\<close> leaves it and \<open>pv__format\<close> keeps it.
\<close>

definition eta_unused_empty :: "display \<Rightarrow> bool" where
  "eta_unused_empty d =
     ((required (component d PV_COMPONENT_ETA)
         \<or> content_length (component d PV_COMPONENT_ETA) = 0)
      \<and> (required (component d PV_COMPONENT_FINETA)
         \<or> content_length (component d PV_COMPONENT_FINETA) = 0))"

text \<open>A display state as \<open>calloc\<close> leaves it, with a display buffer for a width of 80.\<close>

definition fresh_display :: display where
  "fresh_display =
     \<lparr>format = [],
      component = (\<lambda>t. \<lparr>required = False, content = [], content_length = 0\<rparr>),
      output_length = 0, display_buffer = [], display_buffer_size = 240,
      display_string_len = 0, prev_screen_width = 0\<rparr>"

section \<open>Runs without failing system calls\<close>












section \<open>Properties: machine integers\<close>

lemma s64_id: "in_s64 x \<Longrightarrow> s64 x = x"
  unfolding s64_def in_s64_def by simp

lemma s64_idI: "- 9223372036854775808 \<le> x \<Longrightarrow> x < 9223372036854775808 \<Longrightarrow> s64 x = x"
  by (rule s64_id) (simp add: in_s64_def)

section \<open>Properties: elapsed time\<close>

text \<open>
  The truncating quotient and remainder by \<open>10^9\<close>, followed by the correction that
  \<open>pv_elapsedtime_subtract\<close> applies to a negative remainder, are the floor quotient
  and remainder.
\<close>

lemma floor_of_trunc:
  fixes n :: int
  shows "(if n smod 1000000000 < 0 then n sdiv 1000000000 - 1 else n sdiv 1000000000) = n div 1000000000"
    and "(if n smod 1000000000 < 0 then 1000000000 + n smod 1000000000 else n smod 1000000000) = n mod 1000000000"
proof -
  have m: "0 \<le> n mod 1000000000" "n mod 1000000000 < 1000000000" by simp_all
  consider "0 < n" | "n \<le> 0" "1000000000 dvd n" | "n < 0" "\<not> 1000000000 dvd n"
    by (cases "0 < n"; cases "(1000000000::int) dvd n") force+
  then have "n sdiv 1000000000 = n div 1000000000 \<and> n smod 1000000000 = n mod 1000000000
      \<or> n sdiv 1000000000 = n div 1000000000 + 1 \<and> n smod 1000000000 = n mod 1000000000 - 1000000000 \<and> n mod 1000000000 \<noteq> 0"
  proof cases
    case 1 then show ?thesis
      by (simp add: signed_divide_int_eq_divide_int signed_modulo_int_eq_modulo_int)
  next
    case 2 then show ?thesis
      by (simp add: signed_divide_int_eq_divide_int signed_modulo_int_eq_modulo_int)
  next
    case 3 then show ?thesis
      by (simp add: signed_divide_int_eq_divide_int signed_modulo_int_eq_modulo_int sgn_if dvd_eq_mod_eq_0)
  qed
  then show "(if n smod 1000000000 < 0 then n sdiv 1000000000 - 1 else n sdiv 1000000000) = n div 1000000000"
    and "(if n smod 1000000000 < 0 then 1000000000 + n smod 1000000000 else n smod 1000000000) = n mod 1000000000"
    using m by auto
qed

lemma trunc_bounds:
  fixes n :: int
  shows "\<bar>n sdiv 1000000000\<bar> \<le> \<bar>n\<bar>" "\<bar>n smod 1000000000\<bar> < 1000000000"
  using sdiv_int_range [of n 1000000000] smod_int_range [of 1000000000 n] by auto

lemma subtract_floor:
  assumes a: "- (2 ^ 61) \<le> tv_sec a" "tv_sec a \<le> 2 ^ 61" "- (2 ^ 60) \<le> tv_nsec a" "tv_nsec a \<le> 2 ^ 60"
    and b: "- (2 ^ 60) \<le> tv_sec b" "tv_sec b \<le> 2 ^ 60" "- (2 ^ 60) \<le> tv_nsec b" "tv_nsec b \<le> 2 ^ 60"
  shows "pv_elapsedtime_subtract (Some r) (Some a) (Some b) =
           Some (r\<lparr>tv_sec := tv_sec a - tv_sec b + (tv_nsec a - tv_nsec b) div 1000000000,
                      tv_nsec := (tv_nsec a - tv_nsec b) mod 1000000000\<rparr>)"
proof -
  define n where "n = tv_nsec a - tv_nsec b"
  define s where "s = tv_sec a - tv_sec b"
  define q where "q = n sdiv 1000000000"
  define m where "m = n smod 1000000000"
  have n: "- (2 ^ 61) \<le> n" "n \<le> 2 ^ 61" using a b by (auto simp: n_def)
  have s: "- (2 ^ 61) - 2 ^ 60 \<le> s" "s \<le> 2 ^ 61 + 2 ^ 60" using a b by (auto simp: s_def)
  have q: "- (2 ^ 61) \<le> q" "q \<le> 2 ^ 61" using trunc_bounds(1) [of n] n by (auto simp: q_def)
  have m: "- 1000000000 < m" "m < 1000000000" using trunc_bounds(2) [of n] by (auto simp: m_def)
  have w1: "s64 (tv_sec a) = tv_sec a" "s64 (tv_nsec a) = tv_nsec a"
    using a by (auto intro!: s64_idI)
  have w2: "s64 s = s" "s64 n = n" using n s by (auto intro!: s64_idI)
  have w3: "s64 (s + q) = s + q" "s64 (s + q - 1) = s + q - 1" "s64 (1000000000 + m) = 1000000000 + m"
    using s q m by (auto intro!: s64_idI)
  have "pv_elapsedtime_subtract (Some r) (Some a) (Some b) =
     Some (r\<lparr>tv_sec := (if m < 0 then s + q - 1 else s + q),
              tv_nsec := (if m < 0 then 1000000000 + m else m)\<rparr>)"
    unfolding pv_elapsedtime_subtract_def Let_def option.case add_0 w1
    unfolding n_def [symmetric] s_def [symmetric] w2 q_def [symmetric] m_def [symmetric] w3
    by simp
  moreover have "(if m < 0 then s + q - 1 else s + q) = s + n div 1000000000"
    using floor_of_trunc(1) [of n] unfolding q_def m_def by (simp split: if_splits)
  moreover have "(if m < 0 then 1000000000 + m else m) = n mod 1000000000"
    using floor_of_trunc(2) [of n] unfolding m_def .
  ultimately show ?thesis unfolding n_def s_def by simp
qed

lemma add_trunc:
  assumes a: "ts_small a" and b: "ts_small b"
  shows "pv_elapsedtime_add (Some r) (Some a) (Some b) =
           Some (r\<lparr>tv_sec := tv_sec a + tv_sec b + (tv_nsec a + tv_nsec b) sdiv 1000000000,
                      tv_nsec := (tv_nsec a + tv_nsec b) smod 1000000000\<rparr>)"
proof -
  define n where "n = tv_nsec a + tv_nsec b"
  define s where "s = tv_sec a + tv_sec b"
  define q where "q = n sdiv 1000000000"
  have n: "- (2 ^ 60) \<le> n" "n \<le> 2 ^ 60" using a b by (auto simp: n_def ts_small_def)
  have s: "- (2 ^ 60) \<le> s" "s \<le> 2 ^ 60" using a b by (auto simp: s_def ts_small_def)
  have q: "- (2 ^ 60) \<le> q" "q \<le> 2 ^ 60" using trunc_bounds(1) [of n] n by (auto simp: q_def)
  have w1: "s64 (tv_sec a) = tv_sec a" "s64 (tv_nsec a) = tv_nsec a"
    using a by (auto intro!: s64_idI simp: ts_small_def)
  have w2: "s64 s = s" "s64 n = n" "s64 (s + q) = s + q" using n s q by (auto intro!: s64_idI)
  show ?thesis
    unfolding pv_elapsedtime_add_def Let_def option.case add_0 w1
    unfolding n_def [symmetric] s_def [symmetric] w2 q_def [symmetric] w2
    by simp
qed

text \<open>
  Claim C5, as stated: subtraction saturates at zero, so that a later second operand
  gives the zero time. The code has no such branch: one second minus two seconds is
  the timespec \<open>(-1, 0)\<close>.
\<close>

theorem elapsedtime_subtract_not_saturating:
  "pv_elapsedtime_compare (Some \<lparr>tv_sec = 1, tv_nsec = 0\<rparr>) (Some \<lparr>tv_sec = 2, tv_nsec = 0\<rparr>) = - 1 \<and>
   pv_elapsedtime_subtract (Some ts_zero) (Some \<lparr>tv_sec = 1, tv_nsec = 0\<rparr>)
       (Some \<lparr>tv_sec = 2, tv_nsec = 0\<rparr>)
     = Some \<lparr>tv_sec = - 1, tv_nsec = 0\<rparr> \<and>
   \<lparr>tv_sec = - 1, tv_nsec = 0\<rparr> \<noteq> ts_zero"
  by (simp add: pv_elapsedtime_compare_def pv_elapsedtime_subtract_def ts_zero_def s64_def)

text \<open>
  Claim C5, amended: for normalised timespecs \<open>a\<close> and \<open>b\<close> the subtraction stores the
  exact signed difference \<open>a - b\<close> in normalised form (nanoseconds in \<open>[0, 10^9)\<close>,
  seconds times \<open>10^9\<close> plus nanoseconds equal to the difference in nanoseconds); the
  stored seconds are negative exactly when \<open>pv_elapsedtime_compare\<close> says that \<open>a\<close> is
  earlier than \<open>b\<close>. Nothing is clamped to zero.
\<close>

theorem elapsedtime_subtract_signed_difference:
  assumes a: "ts_normal a" "ts_small a" and b: "ts_normal b" "ts_small b"
  shows "map_option ts_normal (pv_elapsedtime_subtract (Some r) (Some a) (Some b)) = Some True
       \<and> map_option ts_nanos (pv_elapsedtime_subtract (Some r) (Some a) (Some b))
            = Some (ts_nanos a - ts_nanos b)
       \<and> map_option (\<lambda>t. tv_sec t < 0) (pv_elapsedtime_subtract (Some r) (Some a) (Some b))
            = Some (pv_elapsedtime_compare (Some a) (Some b) = - 1)"
proof -
  have ab: "- (2 ^ 61) \<le> tv_sec a" "tv_sec a \<le> 2 ^ 61" "- (2 ^ 60) \<le> tv_nsec a" "tv_nsec a \<le> 2 ^ 60"
    and bb: "- (2 ^ 60) \<le> tv_sec b" "tv_sec b \<le> 2 ^ 60" "- (2 ^ 60) \<le> tv_nsec b" "tv_nsec b \<le> 2 ^ 60"
    using a b by (auto simp: ts_small_def)
  define n where "n = tv_nsec a - tv_nsec b"
  have n: "- 1000000000 < n" "n < 1000000000" using a b by (auto simp: ts_normal_def n_def)
  have dm: "n div 1000000000 = (if n < 0 then - 1 else 0)"
  proof (cases "n < 0")
    case True
    have "(n + 1000000000) div 1000000000 = n div 1000000000 + 1" by (rule div_add_self2) simp
    moreover have "(n + 1000000000) div 1000000000 = 0" using n True by (intro div_pos_pos_trivial) simp_all
    ultimately show ?thesis using True by simp
  next
    case False then show ?thesis using n by simp
  qed
  have mm: "n mod 1000000000 = n - (n div 1000000000) * 1000000000"
    by (simp add: minus_div_mult_eq_mod)
  show ?thesis
    unfolding subtract_floor [OF ab bb] n_def [symmetric]
    using n
    by (auto simp: ts_normal_def ts_nanos_def pv_elapsedtime_compare_def mm dm n_def algebra_simps)
qed

theorem elapsedtime_subtract_signed_difference_witness:
  "ts_normal \<lparr>tv_sec = 1, tv_nsec = 500000000\<rparr> \<and> ts_small \<lparr>tv_sec = 1, tv_nsec = 500000000\<rparr> \<and>
   ts_normal \<lparr>tv_sec = 2, tv_nsec = 250000000\<rparr> \<and> ts_small \<lparr>tv_sec = 2, tv_nsec = 250000000\<rparr> \<and>
   map_option ts_nanos (pv_elapsedtime_subtract (Some ts_zero)
       (Some \<lparr>tv_sec = 1, tv_nsec = 500000000\<rparr>) (Some \<lparr>tv_sec = 2, tv_nsec = 250000000\<rparr>))
     = Some (- 750000000) \<and>
   map_option (\<lambda>t. tv_sec t < 0) (pv_elapsedtime_subtract (Some ts_zero)
       (Some \<lparr>tv_sec = 1, tv_nsec = 500000000\<rparr>) (Some \<lparr>tv_sec = 2, tv_nsec = 250000000\<rparr>))
     = Some True"
proof -
  have h: "ts_normal \<lparr>tv_sec = 1, tv_nsec = 500000000\<rparr>" "ts_small \<lparr>tv_sec = 1, tv_nsec = 500000000\<rparr>"
    "ts_normal \<lparr>tv_sec = 2, tv_nsec = 250000000\<rparr>" "ts_small \<lparr>tv_sec = 2, tv_nsec = 250000000\<rparr>"
    by (simp_all add: ts_normal_def ts_small_def)
  show ?thesis
    using h elapsedtime_subtract_signed_difference [OF h, of ts_zero]
    by (simp add: ts_nanos_def pv_elapsedtime_compare_def)
qed

text \<open>
  Claim C9: for every timespec \<open>t1\<close> and every non-negative normalised duration \<open>d\<close>
  (both within the range where no 64-bit intermediate overflows),
  \<open>pv_elapsedtime_subtract\<close> applied to \<open>pv_elapsedtime_add (t1, d)\<close> and \<open>t1\<close> stores
  exactly \<open>d\<close>, whether or not the nanoseconds carried into the seconds.
\<close>

theorem elapsedtime_add_subtract_roundtrip:
  assumes t: "ts_small t1" and d: "ts_normal d" "0 \<le> tv_sec d" "tv_sec d < 2 ^ 59"
  shows "pv_elapsedtime_subtract (Some r) (pv_elapsedtime_add (Some r') (Some t1) (Some d)) (Some t1)
           = Some d"
proof -
  define N where "N = tv_nsec t1 + tv_nsec d"
  define q where "q = N sdiv 1000000000"
  define m where "m = N smod 1000000000"
  define u where "u = r'\<lparr>tv_sec := tv_sec t1 + tv_sec d + q, tv_nsec := m\<rparr>"
  have ds: "ts_small d" using d by (simp add: ts_small_def ts_normal_def)
  have u: "pv_elapsedtime_add (Some r') (Some t1) (Some d) = Some u"
    unfolding u_def q_def m_def N_def by (rule add_trunc [OF t ds])
  have N: "- (2 ^ 59) \<le> N" "N \<le> 2 ^ 60" using t d by (auto simp: N_def ts_small_def ts_normal_def)
  have q: "- (2 ^ 60) \<le> q" "q \<le> 2 ^ 60" using trunc_bounds(1) [of N] N by (auto simp: q_def)
  have m: "- 1000000000 < m" "m < 1000000000" using trunc_bounds(2) [of N] by (auto simp: m_def)
  have qm: "q * 1000000000 + m = N" unfolding q_def m_def by (rule sdiv_mult_smod_eq)
  have ub: "- (2 ^ 61) \<le> tv_sec u" "tv_sec u \<le> 2 ^ 61" "- (2 ^ 60) \<le> tv_nsec u" "tv_nsec u \<le> 2 ^ 60"
    using t d q m by (auto simp: u_def ts_small_def)
  have tb: "- (2 ^ 60) \<le> tv_sec t1" "tv_sec t1 \<le> 2 ^ 60" "- (2 ^ 60) \<le> tv_nsec t1" "tv_nsec t1 \<le> 2 ^ 60"
    using t by (auto simp: ts_small_def)
  have e: "tv_nsec u - tv_nsec t1 = tv_nsec d + (- q) * 1000000000"
    using qm by (simp add: u_def N_def)
  have dn: "tv_nsec d div 1000000000 = 0" "tv_nsec d mod 1000000000 = tv_nsec d"
    using d by (simp_all add: ts_normal_def)
  have "(tv_nsec d + (- q) * 1000000000) div 1000000000 = - q + tv_nsec d div 1000000000"
    by (rule div_mult_self1) simp
  moreover have "(tv_nsec d + (- q) * 1000000000) mod 1000000000 = tv_nsec d mod 1000000000"
    by (rule mod_mult_self1)
  ultimately have "(tv_nsec u - tv_nsec t1) div 1000000000 = - q" "(tv_nsec u - tv_nsec t1) mod 1000000000 = tv_nsec d"
    unfolding e dn by simp_all
  then have "pv_elapsedtime_subtract (Some r) (Some u) (Some t1) =
      Some (r\<lparr>tv_sec := tv_sec d, tv_nsec := tv_nsec d\<rparr>)"
    unfolding subtract_floor [OF ub tb] by (simp add: u_def)
  then show ?thesis unfolding u by (cases d; cases r) simp
qed

theorem elapsedtime_add_subtract_roundtrip_witness:
  "ts_small \<lparr>tv_sec = 5, tv_nsec = 900000000\<rparr> \<and> ts_normal \<lparr>tv_sec = 2, tv_nsec = 300000000\<rparr> \<and>
   pv_elapsedtime_add (Some ts_zero) (Some \<lparr>tv_sec = 5, tv_nsec = 900000000\<rparr>)
       (Some \<lparr>tv_sec = 2, tv_nsec = 300000000\<rparr>) = Some \<lparr>tv_sec = 8, tv_nsec = 200000000\<rparr> \<and>
   pv_elapsedtime_subtract (Some ts_zero)
       (pv_elapsedtime_add (Some ts_zero) (Some \<lparr>tv_sec = 5, tv_nsec = 900000000\<rparr>)
          (Some \<lparr>tv_sec = 2, tv_nsec = 300000000\<rparr>))
       (Some \<lparr>tv_sec = 5, tv_nsec = 900000000\<rparr>) = Some \<lparr>tv_sec = 2, tv_nsec = 300000000\<rparr>"
proof -
  have h: "ts_small \<lparr>tv_sec = 5, tv_nsec = 900000000\<rparr>" "ts_normal \<lparr>tv_sec = 2, tv_nsec = 300000000\<rparr>"
    "0 \<le> tv_sec \<lparr>tv_sec = 2, tv_nsec = 300000000\<rparr>" "tv_sec \<lparr>tv_sec = 2, tv_nsec = 300000000\<rparr> < 2 ^ 59"
    by (simp_all add: ts_normal_def ts_small_def)
  have a: "pv_elapsedtime_add (Some ts_zero) (Some \<lparr>tv_sec = 5, tv_nsec = 900000000\<rparr>)
       (Some \<lparr>tv_sec = 2, tv_nsec = 300000000\<rparr>) = Some \<lparr>tv_sec = 8, tv_nsec = 200000000\<rparr>"
    by (simp add: pv_elapsedtime_add_def ts_zero_def s64_def)
  show ?thesis
    using h(1,2) a elapsedtime_add_subtract_roundtrip [OF h, of ts_zero ts_zero]
    by simp
qed

section \<open>Properties: number parsing\<close>














lemma digit_facts: "pv__isdigit c \<Longrightarrow> c \<noteq> NUL \<and> \<not> is_decimal_mark c"
  by (auto simp: NUL_def pv__isdigit_def is_decimal_mark_def)








section \<open>Properties: string utilities\<close>

lemma c_str_no_NUL: "NUL \<notin> set (c_str b)"
  unfolding c_str_def by (metis (mono_tags, lifting) set_takeWhileD)

lemma c_str_append_NUL: "NUL \<notin> set a \<Longrightarrow> c_str (a @ NUL # r) = a"
  by (induction a) (auto simp: c_str_def)

lemma takeWhile_length_prefix: "length (takeWhile P (xs @ y # ys)) \<le> length xs" if "\<not> P y"
proof (cases "\<forall>x \<in> set xs. P x")
  case True then show ?thesis using that by (simp add: takeWhile_append2)
next
  case False
  then obtain x where "x \<in> set xs" "\<not> P x" by blast
  then have "takeWhile P (xs @ y # ys) = takeWhile P xs" by (rule takeWhile_append1)
  then show ?thesis by (simp add: length_takeWhile_le)
qed

lemma c_strlen_update: "i < length d \<Longrightarrow> c_strlen (d[i := NUL]) \<le> i"
  using takeWhile_length_prefix [of "\<lambda>c. c \<noteq> NUL" NUL "take i d" "drop (Suc i) d"]
  by (simp add: c_strlen_def c_str_def upd_conv_take_nth_drop)

lemma c_str_take: "c_str b = take (c_strlen b) b"
  unfolding c_strlen_def c_str_def by (rule takeWhile_eq_take)

lemma c_str_split:
  assumes "c_strlen b < length b"
  shows "b = c_str b @ NUL # drop (Suc (c_strlen b)) b"
proof -
  have "b ! c_strlen b = NUL"
    using nth_length_takeWhile [of "\<lambda>c. c \<noteq> NUL" b] assms by (simp add: c_strlen_def c_str_def)
  then show ?thesis
    using id_take_nth_drop [OF assms] by (simp add: c_str_take)
qed

lemma precision_arg_small: "n < 2 ^ 31 \<Longrightarrow> precision_arg n = int n"
proof -
  assume a: "n < 2 ^ 31"
  have "int n < 2 ^ 31" using a by (metis of_nat_less_iff of_nat_numeral of_nat_power)
  then show ?thesis unfolding precision_arg_def s32_def by simp
qed

lemma precision_arg_negative: "2 ^ 31 \<le> n \<Longrightarrow> n < 2 ^ 32 \<Longrightarrow> precision_arg n < 0"
proof -
  assume a: "2 ^ 31 \<le> n" "n < 2 ^ 32"
  have l: "(2::int) ^ 31 \<le> int n" using a(1) by (metis of_nat_le_iff of_nat_numeral of_nat_power)
  have u: "int n < 2 ^ 32" using a(2) by (metis of_nat_less_iff of_nat_numeral of_nat_power)
  have "(int n + 2 ^ 31) mod 2 ^ 32 = (int n + 2 ^ 31 - 2 ^ 32) mod 2 ^ 32"
    by (simp only: minus_mod_self2)
  also have "\<dots> = int n + 2 ^ 31 - 2 ^ 32" using l u by simp
  finally show ?thesis unfolding precision_arg_def s32_def using u by simp
qed

lemma expand_precision_cut:
  "n < 2 ^ 32 \<Longrightarrow> take n (expand_precision_s (precision_arg n) t) = take n t"
proof (cases "n < 2 ^ 31")
  case True
  then show ?thesis by (simp add: precision_arg_small expand_precision_s_def)
next
  case False
  assume "n < 2 ^ 32"
  with False have "precision_arg n < 0" by (intro precision_arg_negative) simp_all
  then show ?thesis by (simp add: expand_precision_s_def)
qed

lemma strlcat_append:
  fixes d s :: "char list" and dstsize :: nat
  assumes n: "0 < dstsize" "dstsize \<le> length d"
  defines "d1 \<equiv> d[dstsize - 1 := NUL]"
  defines "d' \<equiv> the (snd (pv_strlcat (Some d) (Some s) dstsize))"
  shows "snd (pv_strlcat (Some d) (Some s) dstsize) = Some d'"
    and "fst (pv_strlcat (Some d) (Some s) dstsize) = c_strlen d1 + c_strlen s"
    and "c_str d' = c_str d1 @ take (dstsize - 1 - c_strlen d1)
           (expand_precision_s (precision_arg (dstsize - 1 - c_strlen d1)) (c_str s))"
    and "length d' = length d"
    and "drop dstsize d' = drop dstsize d"
proof -
  define dstlen where "dstlen = c_strlen d1"
  define available where "available = dstsize - dstlen"
  define expansion where "expansion = expand_precision_s (precision_arg (available - 1)) (c_str s)"
  define out where "out = take (available - 1) expansion"
  have l1: "length d1 = length d" by (simp add: d1_def)
  have dl: "dstlen \<le> dstsize - 1" unfolding dstlen_def d1_def using n by (intro c_strlen_update) simp
  have dlt: "dstlen < length d1" using dl n l1 by simp
  have sp: "d1 = c_str d1 @ NUL # drop (Suc dstlen) d1"
    unfolding dstlen_def using dlt unfolding dstlen_def by (rule c_str_split)
  have cl: "length (c_str d1) = dstlen" by (simp add: dstlen_def c_strlen_def)
  have dd: "drop dstsize d1 = drop dstsize d" using n by (simp add: d1_def)
  have av: "dstsize - 1 - dstlen = available - 1" by (simp add: available_def)
  have pv: "pv_strlcat (Some d) (Some s) dstsize =
      (dstlen + c_strlen s,
       Some (if available > 1 then snd (pv_snprintf d1 dstlen available expansion) else d1))"
    using n by (simp add: pv_strlcat_def Let_def d1_def dstlen_def available_def expansion_def)
  show "snd (pv_strlcat (Some d) (Some s) dstsize) = Some d'"
    by (simp add: d'_def pv)
  show "fst (pv_strlcat (Some d) (Some s) dstsize) = c_strlen d1 + c_strlen s"
    by (simp add: pv dstlen_def)
  show "c_str d' = c_str d1 @ take (dstsize - 1 - c_strlen d1)
           (expand_precision_s (precision_arg (dstsize - 1 - c_strlen d1)) (c_str s))"
    and "length d' = length d" and "drop dstsize d' = drop dstsize d"
  proof -
    have "c_str d' = c_str d1 @ out \<and> length d' = length d \<and> drop dstsize d' = drop dstsize d"
    proof (cases "available > 1")
      case False
      then have e: "dstlen = dstsize - 1" using dl n by (simp add: available_def)
      have o: "out = []" using False by (simp add: out_def)
      have "d' = d1" using False by (simp add: d'_def pv)
      then show ?thesis using e cl l1 dd o by simp
    next
      case True
      define buf1 where "buf1 = d1[dstlen := NUL]"
      define buf2 where "buf2 = write_at buf1 dstlen (out @ [NUL])"
      have ol: "length out \<le> available - 1" by (simp add: out_def)
      have d': "d' = buf2[dstlen + available - 1 := NUL]" using True
        by (simp add: d'_def pv pv_snprintf_def Let_def buf2_def buf1_def out_def)
      have ix: "dstlen + available - 1 = dstsize - 1" using dl n by (simp add: available_def)
      have b1: "buf1 = d1" unfolding buf1_def using sp cl
        by (metis list_update_id nth_append_length)
      have k: "dstlen + length out + 1 \<le> dstsize" using True ol by (simp add: available_def)
      have tk: "take dstlen d1 = c_str d1" using c_str_take [of d1] by (simp add: dstlen_def)
      have b2: "buf2 = c_str d1 @ out @ NUL # drop (dstlen + length out + 1) d1"
        by (simp add: buf2_def write_at_def b1 tk)
      have l2: "length buf2 = length d" using k n l1 cl unfolding b2 by simp
      have "set out \<subseteq> set (c_str s)"
        unfolding out_def expansion_def expand_precision_s_def
        by (auto dest: in_set_takeD)
      then have nn: "NUL \<notin> set (c_str d1 @ out)"
        using c_str_no_NUL [of d1] c_str_no_NUL [of s] by auto
      have "\<exists>r. d' = (c_str d1 @ out) @ NUL # r"
      proof (cases "dstsize - 1 = dstlen + length out")
        case True
        then have "d' = buf2" unfolding d' ix b2 using cl
          by (metis append.assoc length_append list_update_id nth_append_length)
        then show ?thesis unfolding b2 by simp
      next
        case False
        define j where "j = dstsize - 1 - (dstlen + length out + 1)"
        have j: "dstsize - 1 = length (c_str d1 @ out) + Suc j"
          using k False cl by (simp add: j_def)
        have "d' = ((c_str d1 @ out) @ NUL # drop (dstlen + length out + 1) d1)[length (c_str d1 @ out) + Suc j := NUL]"
          unfolding d' ix b2 j by simp
        also have "\<dots> = (c_str d1 @ out) @ NUL # (drop (dstlen + length out + 1) d1)[j := NUL]"
          by (simp only: list_update_append) simp
        finally show ?thesis by blast
      qed
      then obtain r where r: "d' = (c_str d1 @ out) @ NUL # r" by blast
      have c1: "c_str d' = c_str d1 @ out" unfolding r by (rule c_str_append_NUL [OF nn])
      have c3: "length d' = length d" unfolding d' using l2 by simp
      have "drop dstsize d' = drop dstsize buf2" unfolding d' ix using n by simp
      also have "\<dots> = drop dstsize d1"
      proof -
        define A where "A = c_str d1 @ out @ [NUL]"
        have lA: "length A = dstlen + length out + 1" by (simp add: A_def cl)
        have "buf2 = A @ drop (length A) d1" unfolding lA by (simp add: b2 A_def)
        then have "drop dstsize buf2 = drop (dstsize - length A) (drop (length A) d1)"
          using k lA by simp
        also have "\<dots> = drop dstsize d1" using k lA by (simp only: drop_drop) simp
        finally show ?thesis .
      qed
      finally have c4: "drop dstsize d' = drop dstsize d" using dd by simp
      show ?thesis using c1 c3 c4 by simp
    qed
    then show "c_str d' = c_str d1 @ take (dstsize - 1 - c_strlen d1)
           (expand_precision_s (precision_arg (dstsize - 1 - c_strlen d1)) (c_str s))"
      and "length d' = length d" and "drop dstsize d' = drop dstsize d"
      unfolding out_def expansion_def av [symmetric] dstlen_def by simp_all
  qed
qed

text \<open>
  Claim C10: for every destination buffer of at least \<open>dstsize > 0\<close> bytes and every
  source string, \<open>pv_strlcat\<close> leaves a NUL within the first \<open>dstsize\<close> bytes of the
  destination; nothing beyond \<open>dstsize\<close> is touched; and the return value is the length
  of the destination string (as terminated at \<open>dstsize - 1\<close>) plus the length of the
  source, truncated or not. With a NULL pointer or a zero size it returns 0 and changes
  nothing. The destination then holds its old (terminated) string followed by the room's
  worth of what the conversion \<open>%.*s\<close> expands to; for a size of at most \<open>2^32\<close> this is
  the old string followed by the source, cut to \<open>dstsize - 1\<close> characters.
\<close>

theorem pv_strlcat_terminated_length:
  fixes d s :: "char list" and dstsize :: nat
  assumes "0 < dstsize" "dstsize \<le> length d"
  shows "c_strlen (the (snd (pv_strlcat (Some d) (Some s) dstsize))) < dstsize
       \<and> the (snd (pv_strlcat (Some d) (Some s) dstsize))
            ! c_strlen (the (snd (pv_strlcat (Some d) (Some s) dstsize))) = NUL
       \<and> fst (pv_strlcat (Some d) (Some s) dstsize) = c_strlen (d[dstsize - 1 := NUL]) + c_strlen s
       \<and> c_str (the (snd (pv_strlcat (Some d) (Some s) dstsize)))
            = c_str (d[dstsize - 1 := NUL])
              @ take (dstsize - 1 - c_strlen (d[dstsize - 1 := NUL]))
                  (expand_precision_s
                     (precision_arg (dstsize - 1 - c_strlen (d[dstsize - 1 := NUL]))) (c_str s))
       \<and> (dstsize \<le> 2 ^ 32 \<longrightarrow>
            c_str (the (snd (pv_strlcat (Some d) (Some s) dstsize)))
              = take (dstsize - 1) (c_str (d[dstsize - 1 := NUL]) @ c_str s))
       \<and> length (the (snd (pv_strlcat (Some d) (Some s) dstsize))) = length d
       \<and> drop dstsize (the (snd (pv_strlcat (Some d) (Some s) dstsize))) = drop dstsize d
       \<and> pv_strlcat None src n = (0, None)
       \<and> pv_strlcat dst None n = (0, dst)
       \<and> pv_strlcat dst src 0 = (0, dst)"
proof -
  define d' where "d' = the (snd (pv_strlcat (Some d) (Some s) dstsize))"
  define d1 where "d1 = d[dstsize - 1 := NUL]"
  define room where "room = dstsize - 1 - c_strlen d1"
  note a = strlcat_append [OF assms, of s, folded d'_def d1_def, folded room_def]
  have dl: "c_strlen d1 \<le> dstsize - 1"
    unfolding d1_def using assms by (intro c_strlen_update) simp
  have cl: "length (c_str d1) = c_strlen d1" by (simp add: c_strlen_def)
  have "length (c_str d') \<le> dstsize - 1" unfolding a(3) using dl cl by (simp add: room_def)
  then have t: "c_strlen d' < dstsize" using assms by (simp add: c_strlen_def)
  then have "c_strlen d' < length d'" using assms a(4) by simp
  then have z: "d' ! c_strlen d' = NUL"
    using nth_length_takeWhile [of "\<lambda>c. c \<noteq> NUL" d'] by (simp add: c_strlen_def c_str_def)
  have b: "c_str d' = take (dstsize - 1) (c_str d1 @ c_str s)" if "dstsize \<le> 2 ^ 32"
  proof -
    have "room < 2 ^ 32" using that assms by (simp add: room_def)
    then have "c_str d' = c_str d1 @ take room (c_str s)"
      unfolding a(3) by (simp add: expand_precision_cut)
    also have "\<dots> = take (dstsize - 1) (c_str d1 @ c_str s)"
      using dl cl by (simp add: room_def)
    finally show ?thesis .
  qed
  have n: "pv_strlcat None src n = (0, None)" "pv_strlcat dst None n = (0, dst)"
    "pv_strlcat dst src 0 = (0, dst)"
    by (simp_all add: pv_strlcat_def split: option.splits)
  show ?thesis
    unfolding d'_def [symmetric] d1_def [symmetric] room_def [symmetric]
    using t z a(2-5) b n by simp
qed

theorem pv_strlcat_terminated_length_witness:
  "0 < (6::nat) \<and> 6 \<le> length (''ab'' @ [NUL] @ ''xxxxxxx'') \<and> (6::nat) \<le> 2 ^ 32 \<and>
   pv_strlcat (Some (''ab'' @ [NUL] @ ''xxxxxxx'')) (Some ''cdefgh'') 6
     = (8, Some (''abcde'' @ [NUL] @ ''xxxx'')) \<and>
   c_strlen (the (snd (pv_strlcat (Some (''ab'' @ [NUL] @ ''xxxxxxx'')) (Some ''cdefgh'') 6))) < 6 \<and>
   fst (pv_strlcat (Some (''ab'' @ [NUL] @ ''xxxxxxx'')) (Some ''cdefgh'') 6)
     = c_strlen ((''ab'' @ [NUL] @ ''xxxxxxx'')[6 - 1 := NUL]) + c_strlen ''cdefgh'' \<and>
   c_str (the (snd (pv_strlcat (Some (''ab'' @ [NUL] @ ''xxxxxxx'')) (Some ''cdefgh'') 6)))
     = take (6 - 1) (c_str ((''ab'' @ [NUL] @ ''xxxxxxx'')[6 - 1 := NUL]) @ c_str ''cdefgh'')"
proof -
  have h: "0 < (6::nat)" "6 \<le> length (''ab'' @ [NUL] @ ''xxxxxxx'')" by simp_all
  have e: "pv_strlcat (Some (''ab'' @ [NUL] @ ''xxxxxxx'')) (Some ''cdefgh'') 6
     = (8, Some (''abcde'' @ [NUL] @ ''xxxx''))"
    by (simp add: pv_strlcat_def pv_snprintf_def write_at_def c_strlen_def c_str_def NUL_def Let_def
        precision_arg_def s32_def expand_precision_s_def)
  have b: "(6::nat) \<le> 2 ^ 32" by simp
  note t = pv_strlcat_terminated_length [OF h, of "''cdefgh''" None 0 None]
  from t have t1: "c_strlen (the (snd (pv_strlcat (Some (''ab'' @ [NUL] @ ''xxxxxxx'')) (Some ''cdefgh'') 6))) < 6"
    by (rule conjunct1)
  from t have t3: "fst (pv_strlcat (Some (''ab'' @ [NUL] @ ''xxxxxxx'')) (Some ''cdefgh'') 6)
     = c_strlen ((''ab'' @ [NUL] @ ''xxxxxxx'')[6 - 1 := NUL]) + c_strlen ''cdefgh''"
    by blast
  from t b have t5: "c_str (the (snd (pv_strlcat (Some (''ab'' @ [NUL] @ ''xxxxxxx'')) (Some ''cdefgh'') 6)))
     = take (6 - 1) (c_str ((''ab'' @ [NUL] @ ''xxxxxxx'')[6 - 1 := NUL]) @ c_str ''cdefgh'')"
    by blast
  show ?thesis
    by (intro conjI) (rule h b e t1 t3 t5)+
qed

section \<open>Properties: line mode\<close>

lemma pv_memrchr_Some:
  "pv_memrchr buf m n = Some i \<Longrightarrow> i < n \<and> buf ! i = m \<and> (\<forall>j. i < j \<and> j < n \<longrightarrow> buf ! j \<noteq> m)"
proof (induction n)
  case 0 then show ?case by simp
next
  case (Suc n)
  show ?case
  proof (cases "buf ! n = m")
    case True with Suc.prems show ?thesis by auto
  next
    case False
    with Suc.prems have "pv_memrchr buf m n = Some i" by simp
    from Suc.IH [OF this] False show ?thesis by (auto simp: less_Suc_eq)
  qed
qed

lemma pv_memrchr_None: "pv_memrchr buf m n = None \<Longrightarrow> j < n \<Longrightarrow> buf ! j \<noteq> m"
  by (induction n) (auto simp: less_Suc_eq split: if_splits)

lemma linemode_truncate_only_to_write:
  "linemode_truncate st = st\<lparr>to_write := to_write (linemode_truncate st)\<rparr>"
  by (simp add: linemode_truncate_def split: option.splits)

text \<open>
  Claim C2, amended: in line mode without null-terminated lines, when the pending write
  (the \<open>to_write\<close> bytes at the write position) contains a newline, \<open>to_write\<close> is cut so
  that the pending write ends with the last newline in it; when it contains no newline,
  in null-terminated mode and outside line mode, \<open>to_write\<close> (and the whole state) is
  left as it is.
\<close>

theorem linemode_truncation_newline_only:
  assumes b: "transfer_buffer st = Some buf" and t: "0 < to_write st"
    and l: "write_position st + nat (to_write st) \<le> length buf"
  defines "pending \<equiv> take (nat (to_write st)) (drop (write_position st) buf)"
  defines "tw \<equiv> to_write (linemode_truncate st)"
  shows "(linemode st \<and> \<not> null_terminated_lines st \<and> newline \<in> set pending \<longrightarrow>
            0 < tw \<and> tw \<le> to_write st \<and> pending ! (nat tw - 1) = newline
            \<and> newline \<notin> set (drop (nat tw) pending))
       \<and> (\<not> linemode st \<or> null_terminated_lines st \<or> newline \<notin> set pending \<longrightarrow>
            linemode_truncate st = st)"
proof -
  let ?d = "drop (write_position st) buf"
  let ?n = "nat (to_write st)"
  have len: "length pending = ?n" "?n \<le> length ?d" using l by (simp_all add: pending_def)
  have nth: "\<And>j. j < ?n \<Longrightarrow> pending ! j = ?d ! j" by (simp add: pending_def)
  show ?thesis
  proof (cases "linemode st \<and> \<not> null_terminated_lines st")
    case False
    then show ?thesis by (auto simp: linemode_truncate_def)
  next
    case True
    show ?thesis
    proof (cases "pv_memrchr ?d newline ?n")
      case None
      have "newline \<notin> set pending"
      proof
        assume "newline \<in> set pending"
        then obtain j where "j < length pending" "pending ! j = newline" by (auto simp: in_set_conv_nth)
        then show False using pv_memrchr_None [OF None, of j] len nth by simp
      qed
      moreover have "linemode_truncate st = st" using None b by (simp add: linemode_truncate_def)
      ultimately show ?thesis by simp
    next
      case (Some i)
      from pv_memrchr_Some [OF Some]
      have i: "i < ?n" "?d ! i = newline" "\<And>j. i < j \<Longrightarrow> j < ?n \<Longrightarrow> ?d ! j \<noteq> newline" by auto
      have tw: "tw = int i + 1" using Some b True t by (simp add: tw_def linemode_truncate_def)
      have in_p: "newline \<in> set pending" using i(1,2) nth [of i] len by (metis nth_mem)
      have a: "0 < tw" "tw \<le> to_write st" using tw i(1) by simp_all
      have "nat tw - 1 = i" using tw by simp
      then have b': "pending ! (nat tw - 1) = newline" using i nth [of i] by simp
      have c: "newline \<notin> set (drop (nat tw) pending)"
      proof
        assume "newline \<in> set (drop (nat tw) pending)"
        then obtain k where k: "k < length (drop (nat tw) pending)" "drop (nat tw) pending ! k = newline"
          by (auto simp: in_set_conv_nth)
        have kk: "nat tw + k < ?n" using k(1) len by simp
        have "pending ! (nat tw + k) = newline" using k kk len by simp
        then have "?d ! (nat tw + k) = newline" using nth [OF kk] by simp
        moreover have "i < nat tw + k" using tw by simp
        ultimately show False using i(3) [of "nat tw + k"] kk by simp
      qed
      show ?thesis using True in_p a b' c by simp
    qed
  qed
qed

theorem linemode_truncation_newline_only_witness:
  "(let st = (line_state False)\<lparr>transfer_buffer := Some (''a'' @ [newline] @ ''b'' @ replicate 37 NUL),
                buffer_size := 8, read_position := 3, to_write := 3\<rparr>
    in newline \<in> set (take (nat (to_write st)) (drop (write_position st) (the (transfer_buffer st))))
       \<and> to_write (linemode_truncate st) = 2)
   \<and> out_data (res_world (pv_transfer_again 3 0
         (pv_transfer (line_state False) (two_part_world (''a'' @ [newline] @ ''bc'' @ [newline]))
            3 False False 0 (Some 0)))) = ''a'' @ [newline]"
proof -
  define st where "st = (line_state False)\<lparr>transfer_buffer := Some (''a'' @ [newline] @ ''b'' @ replicate 37 NUL),
                buffer_size := 8, read_position := 3, to_write := 3\<rparr>"
  have h: "transfer_buffer st = Some (''a'' @ [newline] @ ''b'' @ replicate 37 NUL)" "0 < to_write st"
    "write_position st + nat (to_write st) \<le> length (''a'' @ [newline] @ ''b'' @ replicate 37 NUL)"
    by (simp_all add: st_def line_state_def pv_state_alloc_def)
  have l: "linemode st" "\<not> null_terminated_lines st"
    by (simp_all add: st_def line_state_def pv_state_alloc_def)
  have n: "newline \<in> set (take (nat (to_write st)) (drop (write_position st) (''a'' @ [newline] @ ''b'' @ replicate 37 NUL)))"
    by (simp add: st_def line_state_def pv_state_alloc_def)
  have v: "to_write (linemode_truncate st) = 2"
    unfolding st_def by code_simp
  have r: "out_data (res_world (pv_transfer_again 3 0
         (pv_transfer (line_state False) (two_part_world (''a'' @ [newline] @ ''bc'' @ [newline]))
            3 False False 0 (Some 0)))) = ''a'' @ [newline]"
    by code_simp
  show ?thesis
    using linemode_truncation_newline_only [OF h] l n v r h(1)
    unfolding st_def [symmetric] Let_def by simp
qed

text \<open>
  Claim C2, as stated, in null-terminated mode: the buffer holds \<open>a\<close>, NUL, \<open>b\<close> and the
  rest of the second record has not been read yet. The pending write keeps its three
  bytes, and \<open>pv_transfer\<close> writes the \<open>b\<close> of the unfinished record.
\<close>

theorem linemode_nul_not_truncated:
  "to_write (linemode_truncate
      ((line_state True)\<lparr>transfer_buffer := Some (''a'' @ [NUL] @ ''b'' @ replicate 37 NUL),
          buffer_size := 8, read_position := 3, to_write := 3\<rparr>)) = 3
   \<and> out_data (res_world (pv_transfer_again 3 0
         (pv_transfer (line_state True) (two_part_world (''a'' @ [NUL] @ ''bc'' @ [NUL]))
            3 False False 0 (Some 0)))) = ''a'' @ [NUL] @ ''b''
   \<and> in_offset (res_world (pv_transfer_again 3 0
         (pv_transfer (line_state True) (two_part_world (''a'' @ [NUL] @ ''bc'' @ [NUL]))
            3 False False 0 (Some 0)))) = 3"
  by code_simp

section \<open>Properties: skipping read errors\<close>

lemma read_skip_errors_in_a_row:
  "read_errors_in_a_row (fst (snd (pv__transfer_read_skip st w room eof_in eof_out orig)))
     = read_errors_in_a_row st"
  by (simp add: pv__transfer_read_skip_def Let_def split: prod.splits)

lemma read_skip_error_skip_block:
  "error_skip_block (fst (snd (pv__transfer_read_skip st w room eof_in eof_out orig)))
     = error_skip_block st"
  by (simp add: pv__transfer_read_skip_def Let_def split: prod.splits)

lemma smod_nonneg: "0 \<le> (x::int) \<Longrightarrow> 0 < a \<Longrightarrow> x smod a = x mod a"
  by (simp add: signed_modulo_int_def sgn_if)

lemma rounded_amount_closed:
  assumes a: "0 < a" "a \<le> 512" and o: "0 \<le> orig" "orig < 2 ^ 62"
  shows "rounded_amount_to_skip a orig room = min (int room) (a - orig mod a)"
proof (cases "a > 1")
  case False
  then have "a = 1" using a by simp
  then show ?thesis by (simp add: rounded_amount_to_skip_def min_def)
next
  case True
  have m: "0 \<le> orig mod a" "orig mod a < a" using a by simp_all
  have s0: "s64 (orig + a) = orig + a" using a o by (intro s64_idI) simp_all
  have sm: "(orig + a) smod a = orig mod a" using a o by (simp add: smod_nonneg)
  have s1: "s64 (orig + a - orig mod a) = orig + a - orig mod a"
    using a o m by (intro s64_idI) simp_all
  have "s64 (a - orig mod a) = a - orig mod a"
    using a m by (intro s64_idI) simp_all
  then have s2: "s64 (orig + a - orig mod a - orig) = a - orig mod a" by simp
  show ?thesis
    using True m unfolding rounded_amount_to_skip_def Let_def s0 sm s1 s2
    by (simp add: min_def)
qed

lemma lseek_set_succeeds:
  assumes "in_seekable w" "seeks w = [] \<or> hd (seeks w) = None" "0 \<le> offset"
  shows "lseek_set w offset = (offset, None, w\<lparr>seeks := tl (seeks w), in_offset := nat offset\<rparr>)"
  using assms by (cases "seeks w") (auto simp: lseek_set_def Let_def)

lemma read_skip_seeks:
  fixes state :: pvstate and w :: world and room :: nat and eof_in eof_out :: bool and orig :: int
  assumes w: "in_seekable w" "seeks w = [] \<or> hd (seeks w) = None"
    and o: "0 \<le> orig" "orig < 2 ^ 62"
    and a: "0 < initial_amount_to_skip state" "initial_amount_to_skip state \<le> 512"
  defines "skipped \<equiv> min (int room) (initial_amount_to_skip state - orig mod initial_amount_to_skip state)"
  defines "r \<equiv> pv__transfer_read_skip state w room eof_in eof_out orig"
  shows "int (in_offset (fst (snd (snd r)))) = orig + skipped"
    and "0 < room \<Longrightarrow> fst r = 1 \<and> read_position (fst (snd r)) = read_position state + nat skipped
           \<and> fst (snd (snd (snd r))) = eof_in"
proof -
  have m: "0 \<le> orig mod initial_amount_to_skip state"
    "orig mod initial_amount_to_skip state < initial_amount_to_skip state" using a by simp_all
  have ra: "rounded_amount_to_skip (initial_amount_to_skip state) orig room = skipped"
    unfolding skipped_def by (rule rounded_amount_closed [OF a o])
  have sk: "0 \<le> skipped" "skipped \<le> 512" unfolding skipped_def using m a by arith+
  have s: "s64 (orig + skipped) = orig + skipped" using o sk by (intro s64_idI) simp_all
  have s': "s64 skipped = skipped" using sk by (intro s64_idI) simp_all
  have ls: "lseek_set w (orig + skipped) =
      (orig + skipped, None, w\<lparr>seeks := tl (seeks w), in_offset := nat (orig + skipped)\<rparr>)"
    using w o sk by (intro lseek_set_succeeds) simp_all
  have nn: "\<not> orig + skipped < 0" using o sk by simp
  have e: "r = (if skipped > 0
      then (1,
            state\<lparr>transfer_buffer :=
                    map_option (\<lambda>buf. write_at buf (read_position state)
                        (replicate (nat skipped) NUL))
                      (transfer_buffer state),
                  read_position := read_position state + nat skipped\<rparr>,
            (if skip_errors state < 2
             then pv_error (w\<lparr>seeks := tl (seeks w), in_offset := nat (orig + skipped)\<rparr>)
                    ''skipped past read error''
             else w\<lparr>seeks := tl (seeks w), in_offset := nat (orig + skipped)\<rparr>),
            eof_in, eof_out)
      else (1, state, w\<lparr>seeks := tl (seeks w), in_offset := nat (orig + skipped)\<rparr>, True,
            (if write_position state \<ge> read_position state then True else eof_out)))"
    unfolding r_def pv__transfer_read_skip_def Let_def ra s ls prod.case using nn
    by (simp add: s')
  show "int (in_offset (fst (snd (snd r)))) = orig + skipped"
    unfolding e using o sk by (simp add: pv_error_def)
  show "fst r = 1 \<and> read_position (fst (snd r)) = read_position state + nat skipped
           \<and> fst (snd (snd (snd r))) = eof_in" if "0 < room"
  proof -
    have "0 < skipped" unfolding skipped_def using that m a by arith
    then show ?thesis unfolding e by simp
  qed
qed

lemma initial_amount_schedule:
  assumes "error_skip_block state \<le> 0" "0 \<le> n"
  shows "initial_amount_to_skip (state\<lparr>read_errors_in_a_row := n\<rparr>)
           = (if n \<le> 4 then 1 else if n \<le> 9 then 2 else if n \<le> 19 then 2 ^ nat (n - 10) else 512)"
  using assms by (simp add: initial_amount_to_skip_def Let_def)

lemma schedule_range:
  fixes n :: int
  defines "distance \<equiv> (if n \<le> 4 then 1 else if n \<le> 9 then 2 else if n \<le> 19 then 2 ^ nat (n - 10) else 512 :: int)"
  shows "0 < distance \<and> distance \<le> 512"
proof -
  have "(2::int) ^ nat (n - 10) \<le> 2 ^ 9" if "n \<le> 19"
    using that by (intro power_increasing) simp_all
  then show ?thesis by (auto simp: distance_def)
qed

text \<open>
  Claim C7, amended: with skip-errors enabled, no fixed error-skip block and a seekable
  input on which the seek succeeds, the read error that makes the counter of consecutive
  errors \<open>n\<close> chooses the distance 1 for \<open>n\<close> from 1 to 4, 2 for \<open>n\<close> from 5 to 9,
  \<open>2^(n-10)\<close> (1, 2, 4, ..., 512) for \<open>n\<close> from 10 to 19, and 512 from 20 on. The handler
  then seeks to the next multiple of that distance beyond the present offset, or as far
  as the room in the buffer allows: the offset of the input moves by the lesser of the
  room and the distance minus the offset modulo the distance, and, when there is room,
  the handler returns 1, the read position moves by the same amount and the input is
  not marked as ended.
\<close>

theorem adaptive_skip_schedule:
  fixes state :: pvstate and w :: world and room :: nat and eof_in eof_out :: bool
  assumes "error_skip_block state \<le> 0" "0 \<le> read_errors_in_a_row state"
    "read_errors_in_a_row state < 2 ^ 62"
    and "in_seekable w" "seeks w = [] \<or> hd (seeks w) = None" "in_offset w < 2 ^ 62"
  defines "n \<equiv> read_errors_in_a_row state + 1"
  defines "distance \<equiv> (if n \<le> 4 then 1 else if n \<le> 9 then 2
                         else if n \<le> 19 then 2 ^ nat (n - 10) else 512 :: int)"
  defines "skipped \<equiv> min (int room) (distance - int (in_offset w) mod distance)"
  defines "r \<equiv> pv__transfer_read_error state w False room eof_in eof_out"
  shows "read_errors_in_a_row (fst (snd r)) = n
       \<and> initial_amount_to_skip (fst (snd r)) = distance
       \<and> int (in_offset (fst (snd (snd r)))) = int (in_offset w) + skipped
       \<and> (0 < room \<longrightarrow> fst r = 1
             \<and> read_position (fst (snd r)) = read_position state + nat skipped
             \<and> fst (snd (snd (snd r))) = eof_in)"
proof -
  define st2 where "st2 = state\<lparr>exit_status := exit_status state OR 16,
                       read_errors_in_a_row := n, read_error_warning_shown := True\<rparr>"
  define w1 where "w1 = (if \<not> read_error_warning_shown state
                         then pv_error w ''warning: read errors detected'' else w)"
  have wn: "s64 (read_errors_in_a_row state + 1) = n"
    unfolding n_def using assms(2,3) by (intro s64_idI) simp_all
  have w1: "in_seekable w1" "seeks w1 = [] \<or> hd (seeks w1) = None" "in_offset w1 = in_offset w"
    using assms(4,5) by (simp_all add: w1_def pv_error_def)
  have oo: "lseek_cur w1 = int (in_offset w)" using w1 by (simp add: lseek_cur_def)
  have r: "r = pv__transfer_read_skip st2 w1 room eof_in eof_out (int (in_offset w))"
    unfolding r_def pv__transfer_read_error_def Let_def wn
    by (simp add: st2_def w1_def [symmetric] oo)
  have ia: "initial_amount_to_skip st2 = distance"
    using assms(1,2) by (simp add: st2_def initial_amount_to_skip_def Let_def distance_def n_def)
  have rg: "0 < initial_amount_to_skip st2" "initial_amount_to_skip st2 \<le> 512"
    unfolding ia distance_def using schedule_range [of n] by simp_all
  have o: "0 \<le> int (in_offset w)" "int (in_offset w) < 2 ^ 62"
    using assms(6) by (simp, metis of_nat_less_iff of_nat_numeral of_nat_power)
  note sk = read_skip_seeks [OF w1(1,2) o rg, of room eof_in eof_out, folded r, unfolded ia, folded skipped_def]
  have c: "read_errors_in_a_row (fst (snd r)) = n"
    unfolding r by (simp add: read_skip_errors_in_a_row st2_def)
  have "initial_amount_to_skip (fst (snd r)) = initial_amount_to_skip st2"
    unfolding r
    by (simp add: initial_amount_to_skip_def read_skip_errors_in_a_row read_skip_error_skip_block)
  then have d: "initial_amount_to_skip (fst (snd r)) = distance" using ia by simp
  have p: "read_position st2 = read_position state" by (simp add: st2_def)
  show ?thesis using c d sk p by simp
qed

theorem adaptive_skip_schedule_witness:
  "(let st = pv_state_alloc\<lparr>skip_errors := 1, read_errors_in_a_row := 11,
                transfer_buffer := Some (replicate 40 NUL), buffer_size := 8\<rparr>;
        w = (quiet_world ''0123456789'')\<lparr>in_offset := 1\<rparr>;
        r = pv__transfer_read_error st w False 8 False False
    in error_skip_block st \<le> 0 \<and> in_seekable w \<and> seeks w = []
       \<and> read_errors_in_a_row (fst (snd r)) = 12
       \<and> initial_amount_to_skip (fst (snd r)) = 4
       \<and> in_offset (fst (snd (snd r))) = 4
       \<and> fst r = 1 \<and> read_position (fst (snd r)) = 3 \<and> \<not> fst (snd (snd (snd r))))"
proof -
  define st where "st = pv_state_alloc\<lparr>skip_errors := 1, read_errors_in_a_row := 11,
                transfer_buffer := Some (replicate 40 NUL), buffer_size := 8\<rparr>"
  define w where "w = (quiet_world ''0123456789'')\<lparr>in_offset := 1\<rparr>"
  define r where "r = pv__transfer_read_error st w False 8 False False"
  have h: "error_skip_block st \<le> 0" "0 \<le> read_errors_in_a_row st"
    "read_errors_in_a_row st < 2 ^ 62"
    "in_seekable w" "seeks w = [] \<or> hd (seeks w) = None" "in_offset w < 2 ^ 62"
    by (simp_all add: st_def w_def pv_state_alloc_def quiet_world_def)
  have v: "read_errors_in_a_row st + 1 = 12" "in_offset w = 1" "read_position st = 0"
    "seeks w = []"
    by (simp_all add: st_def w_def pv_state_alloc_def quiet_world_def)
  note t = adaptive_skip_schedule [OF h, of 8 False False, folded r_def, unfolded v]
  from t have "read_errors_in_a_row (fst (snd r)) = 12
       \<and> initial_amount_to_skip (fst (snd r)) = 4
       \<and> in_offset (fst (snd (snd r))) = 4
       \<and> fst r = 1 \<and> read_position (fst (snd r)) = 3 \<and> \<not> fst (snd (snd (snd r)))"
    by simp
  then show ?thesis
    using h(1,4) v(4) unfolding st_def [symmetric] w_def [symmetric] r_def [symmetric] Let_def
    by simp
qed

text \<open>
  Claim C7, as stated: the schedule is five times 1, five times 2, then 4, 8, 16, ...
  The code gives 2 on the fifth consecutive error and 1 on the tenth; the fifth error
  on a seekable input at offset 0 moves the offset and the read position by 2.
\<close>

theorem adaptive_skip_schedule_not_as_stated:
  "initial_amount_to_skip (pv_state_alloc\<lparr>skip_errors := 1, read_errors_in_a_row := 5\<rparr>) = 2 \<and>
   spec_skip_schedule 5 = 1 \<and>
   initial_amount_to_skip (pv_state_alloc\<lparr>skip_errors := 1, read_errors_in_a_row := 10\<rparr>) = 1 \<and>
   spec_skip_schedule 10 = 2 \<and>
   (case pv__transfer_read_error
           (pv_state_alloc\<lparr>skip_errors := 1, read_errors_in_a_row := 4,
               transfer_buffer := Some (replicate 40 NUL), buffer_size := 8\<rparr>)
           (quiet_world ''0123456789'') False 8 False False of
      (rc, st, w, eof_in, eof_out) \<Rightarrow> (read_errors_in_a_row st, in_offset w, read_position st))
     = (5, 2, 2)"
  by code_simp

section \<open>Properties: a closed output pipe\<close>

text \<open>What the calls of the world leave alone.\<close>

lemma sys_write_log:
  "sys_write w bytes = (r, w') \<Longrightarrow>
     write_log w' = write_log w @ [r] \<and> error_log w' = error_log w"
  by (auto simp: sys_write_def Let_def split: io_result.splits list.splits)

lemma timer_expired_frame:
  "timer_expired w = (b, w') \<Longrightarrow> write_log w' = write_log w \<and> error_log w' = error_log w"
  by (auto simp: timer_expired_def)

lemma fdatasync_eio_frame:
  "fdatasync_eio w = (b, w') \<Longrightarrow> write_log w' = write_log w \<and> error_log w' = error_log w"
  by (auto simp: fdatasync_eio_def)

lemma sys_poll_frame:
  "sys_poll w = (b, w') \<Longrightarrow> write_log w' = write_log w \<and> error_log w' = error_log w"
  by (auto simp: sys_poll_def)

lemma sys_alloc_frame:
  "sys_alloc w = (b, w') \<Longrightarrow> write_log w' = write_log w \<and> error_log w' = error_log w"
  by (auto simp: sys_alloc_def)

lemma sys_read_frame:
  "sys_read w c = (r, bytes, w') \<Longrightarrow> write_log w' = write_log w \<and> error_log w' = error_log w"
  by (auto simp: sys_read_def Let_def split: io_result.splits list.splits)

lemma sys_splice_frame:
  "sys_splice w c = (r, w') \<Longrightarrow> write_log w' = write_log w \<and> error_log w' = error_log w"
  by (auto simp: sys_splice_def Let_def split: io_result.splits list.splits)

lemma is_data_ready_frame:
  "is_data_ready w a b = (n, r1, r2, e, w') \<Longrightarrow> write_log w' = write_log w \<and> error_log w' = error_log w"
  by (auto simp: is_data_ready_def Let_def split: select_result.splits list.splits)

lemma lseek_set_frame:
  "lseek_set w off = (r, e, w') \<Longrightarrow> write_log w' = write_log w \<and> error_log w' = error_log w"
  by (auto simp: lseek_set_def Let_def split: option.splits list.splits if_splits)

lemma pv_error_write_log: "write_log (pv_error w msg) = write_log w"
  by (simp add: pv_error_def)

text \<open>The write loop: the log grows by the results of its writes, and an \<open>EPIPE\<close> among them is what the loop returns.\<close>

lemma write_repeated_body_log:
  "write_repeated_body w buf pos count sync tot = it \<Longrightarrow>
     (case it of
        Return (r, w') \<Rightarrow>
          error_log w' = error_log w \<and>
          (\<exists>x. write_log w' = write_log w @ [x] \<and> (x = Failed EPIPE \<longrightarrow> r = Failed EPIPE))
      | Again (w', n) \<Rightarrow>
          error_log w' = error_log w \<and>
          (\<exists>x. write_log w' = write_log w @ [x] \<and> x \<noteq> Failed EPIPE))"
  by (auto simp: write_repeated_body_def Let_def
      split: prod.splits io_result.splits if_splits
      dest!: sys_write_log fdatasync_eio_frame timer_expired_frame)

lemma write_repeated_log:
  "pv__transfer_write_repeated w buf pos count sync tot = (r, w') \<Longrightarrow>
     error_log w' = error_log w \<and>
     (\<exists>new. write_log w' = write_log w @ new \<and> (Failed EPIPE \<in> set new \<longrightarrow> r = Failed EPIPE))"
proof (induction w buf pos count sync tot arbitrary: r w' rule: pv__transfer_write_repeated.induct)
  case (1 w buf pos count sync tot)
  show ?case
  proof (cases "count > 0")
    case False
    with "1.prems" show ?thesis by (simp add: pv__transfer_write_repeated.simps)
  next
    case True
    show ?thesis
    proof (cases "write_repeated_body w buf pos count sync tot")
      case (Return res)
      then have "res = (r, w')" using "1.prems" True
        by (simp add: pv__transfer_write_repeated.simps)
      with write_repeated_body_log [OF Return] show ?thesis by auto
    next
      case (Again st)
      obtain w1 n where st: "st = (w1, n)" by (cases st)
      have rec: "pv__transfer_write_repeated w1 buf (pos + n) (count - n) sync (tot + n) = (r, w')"
        using "1.prems" True Again st by (simp add: pv__transfer_write_repeated.simps)
      from "1.IH" [OF True Again [unfolded st] refl rec]
      obtain new where n1: "error_log w' = error_log w1" "write_log w' = write_log w1 @ new"
        "Failed EPIPE \<in> set new \<longrightarrow> r = Failed EPIPE" by auto
      from write_repeated_body_log [OF Again] st
      obtain x where n2: "error_log w1 = error_log w" "write_log w1 = write_log w @ [x]" "x \<noteq> Failed EPIPE"
        by auto
      show ?thesis using n1 n2 by auto
    qed
  qed
qed


lemma read_repeated_body_frame:
  "read_repeated_body w buf pos count tot = it \<Longrightarrow>
     (case it of
        Return (r, buf', w') \<Rightarrow> write_log w' = write_log w \<and> error_log w' = error_log w
      | Again (w', buf', n) \<Rightarrow> write_log w' = write_log w \<and> error_log w' = error_log w)"
  by (auto simp: read_repeated_body_def Let_def
      split: prod.splits io_result.splits if_splits
      dest!: sys_read_frame sys_poll_frame timer_expired_frame)

lemma read_repeated_frame:
  "pv__transfer_read_repeated w buf pos count tot = (r, buf', w') \<Longrightarrow>
     write_log w' = write_log w \<and> error_log w' = error_log w"
proof (induction w buf pos count tot arbitrary: r buf' w' rule: pv__transfer_read_repeated.induct)
  case (1 w buf pos count tot)
  show ?case
  proof (cases "count > 0")
    case False
    with "1.prems" show ?thesis by (simp add: pv__transfer_read_repeated.simps)
  next
    case True
    show ?thesis
    proof (cases "read_repeated_body w buf pos count tot")
      case (Return res)
      then have "res = (r, buf', w')" using "1.prems" True
        by (simp add: pv__transfer_read_repeated.simps)
      with read_repeated_body_frame [OF Return] show ?thesis by auto
    next
      case (Again st)
      obtain w1 buf1 n where st: "st = (w1, buf1, n)" by (cases st)
      have rec: "pv__transfer_read_repeated w1 buf1 (pos + n) (count - n) (tot + n) = (r, buf', w')"
        using "1.prems" True Again st by (simp add: pv__transfer_read_repeated.simps)
      from "1.IH" [OF True Again [unfolded st] refl refl rec] read_repeated_body_frame [OF Again] st
      show ?thesis by auto
    qed
  qed
qed

lemma read_splice_write_log:
  "pv__transfer_read_splice st w fd allowed room dns = (r, dns', st', w') \<Longrightarrow>
     write_log w' = write_log w"
  by (auto simp: pv__transfer_read_splice_def Let_def
      split: prod.splits io_result.splits if_splits
      dest!: sys_splice_frame fdatasync_eio_frame)

lemma read_skip_write_log:
  "pv__transfer_read_skip st w room ei eo orig = (rc, st', w', ei', eo') \<Longrightarrow>
     write_log w' = write_log w"
  by (auto simp: pv__transfer_read_skip_def Let_def pv_error_write_log
      split: prod.splits if_splits dest!: lseek_set_frame)

lemma read_error_write_log:
  "pv__transfer_read_error st w dns room ei eo = (rc, st', w', ei', eo') \<Longrightarrow>
     write_log w' = write_log w"
  by (auto simp: pv__transfer_read_error_def Let_def pv_error_write_log
      split: if_splits dest!: read_skip_write_log)

lemma transfer_read_write_log:
  assumes "pv__transfer_read st w fd ei eo allowed = (rc, st', w', ei', eo')"
  shows "write_log w' = write_log w"
proof -
  obtain n0 dns st1 w1 where sp:
    "pv__transfer_read_splice st w fd allowed (buffer_size st - read_position st) (skip_errors st = 0)
       = (n0, dns, st1, w1)"
    by (cases "pv__transfer_read_splice st w fd allowed (buffer_size st - read_position st) (skip_errors st = 0)")
  obtain nread st2 w2 where rd:
    "(if \<not> splice_used st1
      then (case transfer_buffer st1 of
              None \<Rightarrow> (Failed EFAULT, st1, w1)
            | Some buf0 \<Rightarrow>
                (case pv__transfer_read_repeated w1 buf0 (read_position st1)
                        (buffer_size st - read_position st) 0 of
                   (nread, buf, w2) \<Rightarrow> (nread, st1\<lparr>transfer_buffer := Some buf\<rparr>, w2)))
      else (n0, st1, w1)) = (nread, st2, w2)"
    by (metis prod_cases3)
  have l1: "write_log w1 = write_log w" using read_splice_write_log [OF sp] .
  have l2: "write_log w2 = write_log w1"
    using rd by (auto split: if_splits option.splits prod.splits dest!: read_repeated_frame)
  show ?thesis
    using assms l1 l2
    by (auto simp: pv__transfer_read_def Let_def sp rd
        split: io_result.splits if_splits prod.splits
        dest!: read_error_write_log is_data_ready_frame)
qed

lemma prepare_write_log:
  "pv_transfer_prepare st w fd = (ok, st', w') \<Longrightarrow> write_log w' = write_log w"
  by (auto simp: pv_transfer_prepare_def Let_def pv_error_write_log
      split: prod.splits option.splits if_splits dest!: sys_alloc_frame)

lemma transfer_write_epipe:
  assumes "pv__transfer_write st w ei eo lw = (rc, st', w', ei', eo', lw')"
    and "Failed EPIPE \<in> set (drop (length (write_log w)) (write_log w'))"
  shows "rc = 0 \<and> ei' \<and> eo' \<and> st' = st \<and> lw' = lw \<and> error_log w' = error_log w"
proof (cases "transfer_buffer st")
  case None
  with assms show ?thesis by (auto simp: pv__transfer_write_def pv_error_write_log)
next
  case (Some buf)
  obtain r w1 where wr:
    "(if discard_input st then (Done (nat (to_write st)), w)
      else if to_write st > 0
      then pv__transfer_write_repeated w buf (write_position st) (nat (to_write st))
             (sync_after_write st) 0
      else (Done 0, w)) = (r, w1)"
    by (metis surj_pair)
  have "error_log w1 = error_log w \<and>
     (\<exists>new. write_log w1 = write_log w @ new \<and> (Failed EPIPE \<in> set new \<longrightarrow> r = Failed EPIPE))"
    using wr write_repeated_log by (auto split: if_splits)
  then obtain new where n: "error_log w1 = error_log w" "write_log w1 = write_log w @ new"
    "Failed EPIPE \<in> set new \<longrightarrow> r = Failed EPIPE" by auto
  have eq: "(case r of
        Done n \<Rightarrow>
          if n = 0 then (1, st, w1, ei, True, lw)
          else (let lineswritten1 =
                      (if linemode st
                       then map_option
                              (\<lambda>l. (let separator = (if null_terminated_lines st then NUL else newline);
                                         lines = length (filter (\<lambda>c. c = separator)
                                                    (take n (drop (write_position st) buf)))
                                     in s64 (l + int lines)))
                              lw
                       else lw);
                    st1 = st\<lparr>write_position := write_position st + n,
                              written := s64 (written st + int n)\<rparr>;
                    st2 = (if outputbuf_required st1
                           then (let new_portion_length =
                                       (if n > lastoutput_length st1
                                        then lastoutput_length st1 else n);
                                     old_portion_length =
                                       lastoutput_length st1 - new_portion_length;
                                     lob1 = (if old_portion_length > 0
                                             then write_at (lastoutput_buffer st1) 0
                                                    (take old_portion_length
                                                       (drop new_portion_length
                                                          (lastoutput_buffer st1)))
                                             else lastoutput_buffer st1)
                                 in st1\<lparr>lastoutput_buffer :=
                                         write_at lob1 old_portion_length
                                           (take new_portion_length
                                              (drop (write_position st1 - new_portion_length)
                                                 buf))\<rparr>)
                           else st1)
                in if write_position st2 \<ge> read_position st2
                   then (1, st2\<lparr>write_position := 0, read_position := 0\<rparr>, w1, ei,
                         (if ei then True else eo), lineswritten1)
                   else (1, st2, w1, ei, eo, lineswritten1))
      | Failed e \<Rightarrow>
          if e = EINTR \<or> e = EAGAIN
          then (case is_data_ready w1 False False of
                  (r, fd_in_ready, fd_out_ready, err, w2) \<Rightarrow> (0, st, w2, ei, eo, lw))
          else if e = EPIPE then (0, st, w1, True, True, lw)
          else (1, st\<lparr>exit_status := exit_status st OR 16, written := - 1\<rparr>,
                pv_error w1 ''write failed'', ei, True, lw)) = (rc, st', w', ei', eo', lw')"
    using assms(1) unfolding pv__transfer_write_def Some option.case wr prod.case .
  show ?thesis
  proof (cases r)
    case (Done k)
    have "w' = w1" using eq unfolding Done io_result.case Let_def by (auto split: if_splits)
    then have "Failed EPIPE \<in> set new" using assms(2) n(2) by simp
    then show ?thesis using n(3) Done by simp
  next
    case (Failed e)
    show ?thesis
    proof (cases "e = EPIPE")
      case True
      then show ?thesis using eq n(1) unfolding Failed by simp
    next
      case False
      have "write_log w' = write_log w1"
        using eq False unfolding Failed io_result.case
        by (auto simp: pv_error_write_log split: if_splits prod.splits dest!: is_data_ready_frame)
      then have "Failed EPIPE \<in> set new" using assms(2) n(2) by simp
      then show ?thesis using n(3) Failed False by simp
    qed
  qed
qed

lemma transfer_finish_epipe:
  assumes "pv_transfer_finish st w ei eo lw rtw = (rc, st', w', ei', eo', lw')"
    and "Failed EPIPE \<in> set (drop (length (write_log w)) (write_log w'))"
  shows "rc = 0 \<and> ei' \<and> eo' \<and> st' = linemode_truncate st \<and> exit_status st' = exit_status st
       \<and> error_log w' = error_log w"
proof -
  let ?st4 = "linemode_truncate st"
  have ex: "exit_status ?st4 = exit_status st"
    by (subst linemode_truncate_only_to_write) simp
  obtain rc2 st5 w3 ei2 eo2 lw2 where wr:
    "(if rtw \<and> \<not> splice_used ?st4 \<and> read_position ?st4 > write_position ?st4
          \<and> to_write ?st4 > 0 \<and> lw \<noteq> None
      then pv__transfer_write ?st4 w ei eo lw
      else (1, ?st4, w, ei, eo, lw)) = (rc2, st5, w3, ei2, eo2, lw2)"
    by (metis prod_cases6)
  have w': "w' = w3"
    using assms(1) unfolding pv_transfer_finish_def Let_def wr prod.case by (auto split: if_splits)
  have called: "pv__transfer_write ?st4 w ei eo lw = (rc2, st5, w3, ei2, eo2, lw2)"
    using wr assms(2) w' by (auto split: if_splits)
  from transfer_write_epipe [OF called] assms(2) w'
  have r: "rc2 = 0" "ei2" "eo2" "st5 = ?st4" "error_log w3 = error_log w" by auto
  show ?thesis
    using assms(1) r ex w' unfolding pv_transfer_finish_def Let_def wr prod.case by auto
qed

lemma pv_transfer_epipe:
  assumes "pv_transfer st w fd ei eo allowed lw = (rc, st', w', ei', eo', lw')"
    and "Failed EPIPE \<in> set (drop (length (write_log w)) (write_log w'))"
  shows "rc = 0 \<and> ei' \<and> eo'"
proof -
  obtain ok st1 w1 where pr: "pv_transfer_prepare st w fd = (ok, st1, w1)"
    by (cases "pv_transfer_prepare st w fd")
  have l1: "write_log w1 = write_log w" using prepare_write_log [OF pr] .
  have ok: ok
  proof (rule ccontr)
    assume "\<not> ok"
    then have "w' = w1" using assms(1) by (simp add: pv_transfer_def pr)
    then show False using assms(2) l1 by simp
  qed
  have m: "pv_transfer_main st1 w1 fd ei eo allowed lw = (rc, st', w', ei', eo', lw')"
    using assms(1) ok by (simp add: pv_transfer_def pr)
  define lw0 where "lw0 = (if linemode st1 then map_option (\<lambda>l. 0) lw else lw)"
  define stt where "stt = st1\<lparr>to_write :=
       (if (rate_limit st1 > 0 \<or> allowed > 0) \<and> int (read_position st1 - write_position st1) > allowed
        then allowed else int (read_position st1 - write_position st1))\<rparr>"
  obtain n rr rw err w2 where sel:
    "is_data_ready w1 (\<not> ei \<and> read_position st1 < buffer_size st1) (\<not> eo \<and> to_write stt > 0)
       = (n, rr, rw, err, w2)"
    by (metis prod_cases5)
  have l2: "write_log w2 = write_log w1" using is_data_ready_frame [OF sel] by simp
  obtain rc1 st3 w3 ei1 eo1 where rd:
    "(if rr then pv__transfer_read (stt\<lparr>written := 0\<rparr>) w2 fd ei eo allowed
      else (1, stt\<lparr>written := 0\<rparr>, w2, ei, eo)) = (rc1, st3, w3, ei1, eo1)"
    by (metis prod_cases5)
  have l3: "write_log w3 = write_log w2"
    using rd by (auto split: if_splits dest!: transfer_read_write_log)
  have m': "(if ei \<and> eo then (0, st1, w1, ei, eo, lw0)
      else if n < 0
      then (if err = Some EINTR then (0, stt, w2, ei, eo, lw0)
            else (- 1, stt\<lparr>exit_status := exit_status stt OR 16\<rparr>,
                  pv_error w2 ''select call failed'', ei, eo, lw0))
      else if rc1 = 0 then (0, st3, w3, ei1, eo1, lw0)
      else pv_transfer_finish st3 w3 ei1 eo1 lw0 rw) = (rc, st', w', ei', eo', lw')"
    using m unfolding pv_transfer_main_def Let_def lw0_def [symmetric] stt_def [symmetric]
      sel prod.case rd .
  have fin: "pv_transfer_finish st3 w3 ei1 eo1 lw0 rw = (rc, st', w', ei', eo', lw')"
    using m' assms(2) l1 l2 l3 by (auto simp: pv_error_write_log split: if_splits)
  have "Failed EPIPE \<in> set (drop (length (write_log w3)) (write_log w'))"
    using assms(2) l1 l2 l3 by simp
  from transfer_finish_epipe [OF fin this] show ?thesis by simp
qed

text \<open>
  Claim C8: whenever a \<open>write\<close> to standard output fails with \<open>EPIPE\<close> during a call of
  \<open>pv_transfer\<close>, the call returns 0 with both end-of-file flags set; and from the end
  of the read phase on (the last part of \<open>pv_transfer\<close>) no exit-status bit is set and
  nothing is given to \<open>pv_error\<close>.
\<close>

theorem epipe_sets_both_eof_returns_zero:
  "(Failed EPIPE \<in> set (drop (length (write_log w))
        (write_log (res_world (pv_transfer st w fd ei eo allowed lw)))) \<longrightarrow>
      res_rc (pv_transfer st w fd ei eo allowed lw) = 0
      \<and> res_eof_in (pv_transfer st w fd ei eo allowed lw)
      \<and> res_eof_out (pv_transfer st w fd ei eo allowed lw))
   \<and> (Failed EPIPE \<in> set (drop (length (write_log w))
        (write_log (res_world (pv_transfer_finish st w ei eo lw rtw)))) \<longrightarrow>
      res_rc (pv_transfer_finish st w ei eo lw rtw) = 0
      \<and> res_eof_in (pv_transfer_finish st w ei eo lw rtw)
      \<and> res_eof_out (pv_transfer_finish st w ei eo lw rtw)
      \<and> exit_status (res_state (pv_transfer_finish st w ei eo lw rtw)) = exit_status st
      \<and> error_log (res_world (pv_transfer_finish st w ei eo lw rtw)) = error_log w)"
proof -
  obtain rc st' w' ei' eo' lw' where a: "pv_transfer st w fd ei eo allowed lw = (rc, st', w', ei', eo', lw')"
    by (metis prod_cases6)
  obtain rcf stf wf eif eof lwf where b: "pv_transfer_finish st w ei eo lw rtw = (rcf, stf, wf, eif, eof, lwf)"
    by (metis prod_cases6)
  have f: "Failed EPIPE \<in> set (drop (length (write_log w)) (write_log wf)) \<Longrightarrow>
      rcf = 0 \<and> eif \<and> eof \<and> exit_status stf = exit_status st \<and> error_log wf = error_log w"
    using transfer_finish_epipe [OF b] by blast
  show ?thesis
    using pv_transfer_epipe [OF a] f
    unfolding a b res_rc_def res_world_def res_state_def res_eof_in_def res_eof_out_def
    by simp
qed

theorem epipe_sets_both_eof_returns_zero_witness:
  "(let st = pv_state_alloc\<lparr>no_splice := True, target_buffer_size := 8, exit_status := 0,
                transfer_buffer := Some (''abc'' @ replicate 37 NUL), buffer_size := 8,
                read_position := 3\<rparr>;
        w = (quiet_world ''abcdef'')\<lparr>in_offset := 3, writes := [Failed EPIPE],
                selects := [Selected False True]\<rparr>;
        r = pv_transfer st w 0 False False 0 (Some 0)
    in write_log (res_world r) = [Failed EPIPE] \<and> res_rc r = 0 \<and> res_eof_in r \<and> res_eof_out r
       \<and> exit_status (res_state r) = 0 \<and> error_log (res_world r) = [])"
proof -
  define st where "st = pv_state_alloc\<lparr>no_splice := True, target_buffer_size := 8, exit_status := 0,
                transfer_buffer := Some (''abc'' @ replicate 37 NUL), buffer_size := 8,
                read_position := 3\<rparr>"
  define w where "w = (quiet_world ''abcdef'')\<lparr>in_offset := 3, writes := [Failed EPIPE],
                selects := [Selected False True]\<rparr>"
  have l: "write_log (res_world (pv_transfer st w 0 False False 0 (Some 0))) = [Failed EPIPE]"
    "exit_status (res_state (pv_transfer st w 0 False False 0 (Some 0))) = 0"
    "error_log (res_world (pv_transfer st w 0 False False 0 (Some 0))) = []"
    unfolding st_def w_def by code_simp+
  have w0: "write_log w = []" by (simp add: w_def quiet_world_def)
  have h: "Failed EPIPE \<in> set (drop (length (write_log w))
        (write_log (res_world (pv_transfer st w 0 False False 0 (Some 0)))))"
    unfolding l w0 by simp
  show ?thesis
    using epipe_sets_both_eof_returns_zero [of w st 0 False False 0 "Some 0", THEN conjunct1, rule_format, OF h] l
    unfolding st_def [symmetric] w_def [symmetric] Let_def by simp
qed

section \<open>Properties: the percentage\<close>






section \<open>Properties: the estimated time without a size\<close>

lemma add_segment_content_length:
  "content_length (component (add_segment d t start len) u) = content_length (component d u)"
  by (simp add: add_segment_def Let_def)

lemma format_init_body_content_length:
  "format_init_body formatstr strpos d = Again (strpos1, d1) \<Longrightarrow>
     content_length (component d1 u) = content_length (component d u)"
  "format_init_body formatstr strpos d = Return d2 \<Longrightarrow>
     content_length (component d2 u) = content_length (component d u)"
  by (auto simp: format_init_body_def Let_def add_segment_content_length
      split: if_splits prod.splits)

lemma format_init_loop_content_length:
  "content_length (component (format_init_loop formatstr strpos segment d) u)
     = content_length (component d u)"
proof (induction formatstr strpos segment d rule: format_init_loop.induct)
  case (1 formatstr strpos segment d)
  show ?case
  proof (cases "c_at formatstr strpos \<noteq> NUL \<and> segment < PV_FORMAT_ARRAY_MAX")
    case False
    then have "format_init_loop formatstr strpos segment d = d"
      by (subst format_init_loop.simps) auto
    then show ?thesis by simp
  next
    case True
    show ?thesis
    proof (cases "format_init_body formatstr strpos d")
      case (Return d2)
      then have "format_init_loop formatstr strpos segment d = d2"
        using True by (subst format_init_loop.simps) simp
      then show ?thesis using format_init_body_content_length(2) [OF Return] by simp
    next
      case (Again s)
      obtain strpos1 d1 where s: "s = (strpos1, d1)" by (cases s)
      have "format_init_loop formatstr strpos segment d
          = format_init_loop formatstr (strpos1 + 1) (segment + 1) d1"
        using True Again s by (subst format_init_loop.simps) simp
      then show ?thesis
        using "1.IH" [OF True Again [unfolded s] refl]
          format_init_body_content_length(1) [OF Again [unfolded s]] by simp
    qed
  qed
qed

lemma format_init_eta_empty:
  "u \<noteq> PV_COMPONENT_NAME \<Longrightarrow>
     content_length (component (pv__format_init name formatstr d) u) = 0"
  by (simp add: pv__format_init_def Let_def format_init_loop_content_length
      split: option.splits)

lemma static_portion_from:
  assumes "content_length (components PV_COMPONENT_ETA) = 0"
    "content_length (components PV_COMPONENT_FINETA) = 0"
  shows "foldl (\<lambda>total_width seg.
              if seg_type seg = PV_COMPONENT_STRING then total_width + str_length seg
              else if seg_type seg \<noteq> PV_COMPONENT_PROGRESS
              then total_width + content_length (components (seg_type seg))
              else total_width) a (without_eta segs)
       = foldl (\<lambda>total_width seg.
              if seg_type seg = PV_COMPONENT_STRING then total_width + str_length seg
              else if seg_type seg \<noteq> PV_COMPONENT_PROGRESS
              then total_width + content_length (components (seg_type seg))
              else total_width) a segs"
  using assms by (induction segs arbitrary: a) (auto simp: without_eta_def)

lemma static_portion_without_eta:
  assumes "content_length (components PV_COMPONENT_ETA) = 0"
    "content_length (components PV_COMPONENT_FINETA) = 0"
  shows "static_portion_size components (without_eta segs) = static_portion_size components segs"
  unfolding static_portion_size_def by (rule static_portion_from [OF assms])

lemma format_assemble_without_eta:
  assumes "content_length (components PV_COMPONENT_ETA) = 0"
    "content_length (components PV_COMPONENT_FINETA) = 0"
  shows "format_assemble formatstr components buffer_bytes control_width (without_eta segs) out n
       = format_assemble formatstr components buffer_bytes control_width segs out n"
proof (induction segs arbitrary: out n)
  case Nil
  show ?case by (simp add: without_eta_def)
next
  case (Cons seg segs)
  show ?case
  proof (cases "seg_type seg = PV_COMPONENT_ETA \<or> seg_type seg = PV_COMPONENT_FINETA")
    case True
    then have "without_eta (seg # segs) = without_eta segs" by (auto simp: without_eta_def)
    moreover have "format_assemble formatstr components buffer_bytes control_width (seg # segs) out n
        = format_assemble formatstr components buffer_bytes control_width segs out n"
      using True assms by (auto simp: format_assemble_body_def)
    ultimately show ?thesis using Cons.IH by simp
  next
    case False
    then have w: "without_eta (seg # segs) = seg # without_eta segs" by (simp add: without_eta_def)
    show ?thesis unfolding w by (simp add: Cons.IH split: iteration.splits prod.splits)
  qed
qed

lemma format_progress_frame:
  "format (format_progress control_width bar d) = format d"
  "display_buffer_size (format_progress control_width bar d) = display_buffer_size d"
  "display_string_len (format_progress control_width bar d) = display_string_len d"
  "prev_screen_width (format_progress control_width bar d) = prev_screen_width d"
  "u \<noteq> PV_COMPONENT_PROGRESS \<Longrightarrow>
     component (format_progress control_width bar d) u = component d u"
  by (simp_all add: format_progress_def Let_def)

lemma format_progress_without_eta:
  assumes "content_length (component d PV_COMPONENT_ETA) = 0"
    "content_length (component d PV_COMPONENT_FINETA) = 0"
  shows "format_progress control_width bar (d\<lparr>format := without_eta (format d)\<rparr>)
       = (format_progress control_width bar d)\<lparr>format := without_eta (format d)\<rparr>"
  using static_portion_without_eta [of "component d", OF assms, of "format d"]
  by (simp add: format_progress_def Let_def)

lemma format_component_eta:
  assumes "control_size < 1" "t = PV_COMPONENT_ETA \<or> t = PV_COMPONENT_FINETA"
    "required c \<or> content_length c = 0"
  shows "content_length (format_component control_size rendered t c) = 0"
    and "required c \<Longrightarrow> content (format_component control_size rendered t c) = []"
    and "required (format_component control_size rendered t c) = required c"
  using assms by (auto simp: format_component_def)

lemma format_line_components:
  "u \<noteq> PV_COMPONENT_PROGRESS \<Longrightarrow>
     component (pv__format_line control_size control_width formatstr rendered bar d) u
       = format_component control_size rendered u (component d u)"
  by (simp add: pv__format_line_def Let_def format_progress_frame)

text \<open>
  Claim C6, amended: when the size is not known (less than 1), a display update gives
  the components of \<open>%e\<close> and \<open>%I\<close> the empty string and the length zero, and the state
  after the update, the display line and its length among it, is what the same update
  gives for the format without its \<open>%e\<close> and \<open>%I\<close> segments: the two components are
  omitted from the line. This holds for every update after \<open>pv__format_init\<close>, which
  leaves both components with the length zero, as every update does.
\<close>

theorem eta_omitted_without_size:
  assumes "control_size < 1" "eta_unused_empty d"
  shows "pv__format_line control_size control_width formatstr rendered bar
           (d\<lparr>format := without_eta (format d)\<rparr>)
         = (pv__format_line control_size control_width formatstr rendered bar d)
             \<lparr>format := without_eta (format d)\<rparr>
       \<and> content_length (component
            (pv__format_line control_size control_width formatstr rendered bar d)
            PV_COMPONENT_ETA) = 0
       \<and> content_length (component
            (pv__format_line control_size control_width formatstr rendered bar d)
            PV_COMPONENT_FINETA) = 0
       \<and> (required (component d PV_COMPONENT_ETA) \<longrightarrow>
            content (component
              (pv__format_line control_size control_width formatstr rendered bar d)
              PV_COMPONENT_ETA) = [])
       \<and> (required (component d PV_COMPONENT_FINETA) \<longrightarrow>
            content (component
              (pv__format_line control_size control_width formatstr rendered bar d)
              PV_COMPONENT_FINETA) = [])
       \<and> eta_unused_empty (pv__format_line control_size control_width formatstr rendered bar d)
       \<and> eta_unused_empty (pv__format_init name format_string d0)"
proof -
  define d1 where "d1 = d\<lparr>component := (\<lambda>t. format_component control_size rendered t (component d t))\<rparr>"
  have e: "required (component d PV_COMPONENT_ETA) \<or> content_length (component d PV_COMPONENT_ETA) = 0"
    and f: "required (component d PV_COMPONENT_FINETA) \<or> content_length (component d PV_COMPONENT_FINETA) = 0"
    using assms(2) by (simp_all add: eta_unused_empty_def)
  have z: "content_length (component d1 PV_COMPONENT_ETA) = 0"
    "content_length (component d1 PV_COMPONENT_FINETA) = 0"
    using format_component_eta(1) [OF assms(1) _ e] format_component_eta(1) [OF assms(1) _ f]
    by (simp_all add: d1_def)
  define d2 where "d2 = format_progress control_width bar d1"
  have z2: "content_length (component d2 PV_COMPONENT_ETA) = 0"
    "content_length (component d2 PV_COMPONENT_FINETA) = 0"
    using z by (simp_all add: d2_def format_progress_frame)
  have p: "format_progress control_width bar (d1\<lparr>format := without_eta (format d1)\<rparr>)
      = d2\<lparr>format := without_eta (format d1)\<rparr>"
    unfolding d2_def by (rule format_progress_without_eta [OF z])
  have fd: "format d1 = format d" "format d2 = format d"
    by (simp_all add: d1_def d2_def format_progress_frame)
  have l: "format_assemble formatstr (component d2) (display_buffer_size d2) control_width
             (without_eta (format d)) [] 0
         = format_assemble formatstr (component d2) (display_buffer_size d2) control_width
             (format d) [] 0"
    by (rule format_assemble_without_eta [OF z2])
  have d1': "(d\<lparr>format := without_eta (format d)\<rparr>)
        \<lparr>component := (\<lambda>t. format_component control_size rendered t
             (component (d\<lparr>format := without_eta (format d)\<rparr>) t))\<rparr>
      = d1\<lparr>format := without_eta (format d1)\<rparr>"
    by (simp add: d1_def)
  have a: "pv__format_line control_size control_width formatstr rendered bar
           (d\<lparr>format := without_eta (format d)\<rparr>)
         = (pv__format_line control_size control_width formatstr rendered bar d)
             \<lparr>format := without_eta (format d)\<rparr>"
    unfolding pv__format_line_def Let_def d1' d1_def [symmetric] p d2_def [symmetric]
    by (simp add: fd l cong: option.case_cong)
  have b: "content_length (component
            (pv__format_line control_size control_width formatstr rendered bar d)
            PV_COMPONENT_ETA) = 0"
    "content_length (component
            (pv__format_line control_size control_width formatstr rendered bar d)
            PV_COMPONENT_FINETA) = 0"
    using format_component_eta(1) [OF assms(1) _ e] format_component_eta(1) [OF assms(1) _ f]
    by (simp_all add: format_line_components)
  have c: "required (component d PV_COMPONENT_ETA) \<Longrightarrow>
            content (component
              (pv__format_line control_size control_width formatstr rendered bar d)
              PV_COMPONENT_ETA) = []"
    "required (component d PV_COMPONENT_FINETA) \<Longrightarrow>
            content (component
              (pv__format_line control_size control_width formatstr rendered bar d)
              PV_COMPONENT_FINETA) = []"
    using format_component_eta(2) [OF assms(1) _ e] format_component_eta(2) [OF assms(1) _ f]
    by (simp_all add: format_line_components)
  have i: "eta_unused_empty (pv__format_line control_size control_width formatstr rendered bar d)"
    unfolding eta_unused_empty_def using b by simp
  have j: "eta_unused_empty (pv__format_init name format_string d0)"
    unfolding eta_unused_empty_def by (simp add: format_init_eta_empty)
  show ?thesis using a b c i j by simp
qed

theorem eta_omitted_without_size_witness:
  "eta_unused_empty (pv__format_init None (Some ''%b %e|'') fresh_display)
   \<and> required (component (pv__format_init None (Some ''%b %e|'') fresh_display) PV_COMPONENT_ETA)
   \<and> content (component
        (pv__format_line 0 80 ''%b %e|''
           (\<lambda>t. if t = PV_COMPONENT_BYTES then ''10B'' else ''ETA 0:00:10'') (\<lambda>n. [])
           (pv__format_init None (Some ''%b %e|'') fresh_display)) PV_COMPONENT_ETA) = []
   \<and> display_buffer
        (pv__format_line 0 80 ''%b %e|''
           (\<lambda>t. if t = PV_COMPONENT_BYTES then ''10B'' else ''ETA 0:00:10'') (\<lambda>n. [])
           (pv__format_init None (Some ''%b %e|'') fresh_display)) = ''10B |''
   \<and> display_buffer
        (pv__format_line 0 80 ''%b %e|''
           (\<lambda>t. if t = PV_COMPONENT_BYTES then ''10B'' else ''ETA 0:00:10'') (\<lambda>n. [])
           ((pv__format_init None (Some ''%b %e|'') fresh_display)
              \<lparr>format := without_eta
                  (format (pv__format_init None (Some ''%b %e|'') fresh_display))\<rparr>)) = ''10B |''"
proof -
  define d where "d = pv__format_init None (Some ''%b %e|'') fresh_display"
  define rendered where
    "rendered = (\<lambda>t. if t = PV_COMPONENT_BYTES then ''10B'' else ''ETA 0:00:10'')"
  have h: "(0::int) < 1" "eta_unused_empty d" unfolding d_def by code_simp+
  have q: "required (component d PV_COMPONENT_ETA)" unfolding d_def by code_simp
  have v: "display_buffer (pv__format_line 0 80 ''%b %e|'' rendered (\<lambda>n. []) d) = ''10B |''"
    unfolding d_def rendered_def by code_simp
  note t = eta_omitted_without_size [OF h, of 80 "''%b %e|''" rendered "\<lambda>n. []"]
  have "display_buffer (pv__format_line 0 80 ''%b %e|'' rendered (\<lambda>n. [])
            (d\<lparr>format := without_eta (format d)\<rparr>)) = ''10B |''"
    unfolding t [THEN conjunct1] using v by simp
  moreover have "content (component (pv__format_line 0 80 ''%b %e|'' rendered (\<lambda>n. []) d)
      PV_COMPONENT_ETA) = []"
    using t q by blast
  ultimately show ?thesis using h(2) q v unfolding d_def rendered_def by simp
qed

text \<open>
  Claim C6, as stated: with the size zero the format \<open>%e\<close> gives the empty line and the
  format \<open>%b %e|\<close> a line without anything for \<open>%e\<close>, where a known size gives the eleven
  characters of the estimate.
\<close>

theorem eta_not_rendered_as_spaces:
  "display_buffer
     (pv__format_line 0 80 ''%e'' (\<lambda>t. ''ETA 0:00:10'') (\<lambda>n. [])
        (pv__format_init None (Some ''%e'') fresh_display)) = []
   \<and> display_string_len
     (pv__format_line 0 80 ''%e'' (\<lambda>t. ''ETA 0:00:10'') (\<lambda>n. [])
        (pv__format_init None (Some ''%e'') fresh_display)) = 0
   \<and> display_buffer
     (pv__format_line 0 80 ''%b %I|''
        (\<lambda>t. if t = PV_COMPONENT_BYTES then ''10B'' else ''ETA 12:00:10'') (\<lambda>n. [])
        (pv__format_init None (Some ''%b %I|'') fresh_display)) = ''10B |''
   \<and> display_buffer
     (pv__format_line 100 80 ''%b %e|''
        (\<lambda>t. if t = PV_COMPONENT_BYTES then ''10B'' else ''ETA 0:00:10'') (\<lambda>n. [])
        (pv__format_init None (Some ''%b %e|'') fresh_display)) = ''10B ETA 0:00:10|''"
  by code_simp

section \<open>Properties: the byte stream\<close>





































end
